theory Spec2Isabelle
  imports Complex_Main
begin

section \<open>Values shared by the whole referee\<close>

text \<open>
  The referee \<^verbatim>\<open>frisbee-twogtp.py\<close> drives two GTP engines through pipes. The
  exceptions that can leave one of its functions are values of \<open>error\<close>:
  \<^verbatim>\<open>assert\<close> raises \<open>AssertionError\<close>, \<^verbatim>\<open>raise GtpError("...")\<close> is \<open>GtpError\<close>,
  \<^verbatim>\<open>.decode('ascii')\<close> raises \<open>UnicodeDecodeError\<close>, and the board and vertex
  functions of the gomill library raise \<open>IndexError\<close> or \<open>ValueError\<close>.
  A move is \<^verbatim>\<open>'pass'\<close>, \<^verbatim>\<open>'skip'\<close> or a tuple \<^verbatim>\<open>(row, col)\<close>.
\<close>

datatype board_error = IndexError | ValueError

datatype error = AssertionError | GtpError string | UnicodeDecodeError | Raised board_error

type_synonym point = "int \<times> int"

datatype move = Pass | Skip | Pt point

section \<open>The response framer: \<^verbatim>\<open>gtp_cut_response\<close>\<close>

text \<open>
  \<^verbatim>\<open>
  def gtp_cut_response(response):
      assert response
      assert response[0] in '=?'
      tail = re.search(r'^([=?])[0-9]*(.*)$', response, flags=re.DOTALL)
      if not tail:
          raise GtpError("invalid format")
      g = tail.groups()
      return g[0] == '=', g[1].strip()
  \<close>
  Strings are \<open>char list\<close>. The class \<^verbatim>\<open>[0-9]\<close> is the ten ASCII digits;
  \<^verbatim>\<open>str.strip()\<close> removes the characters for which \<^verbatim>\<open>str.isspace\<close> holds, which
  among the code points below 256 are tab, newline, vertical tab, form feed, carriage
  return, the four separators \<^verbatim>\<open>0x1c\<close> to \<^verbatim>\<open>0x1f\<close>, space, \<^verbatim>\<open>0x85\<close> and
  \<^verbatim>\<open>0xa0\<close>.
\<close>

definition is_digit :: "char \<Rightarrow> bool" where
  "is_digit c \<longleftrightarrow> c \<in> set ''0123456789''"

definition isspace :: "char \<Rightarrow> bool" where
  "isspace c \<longleftrightarrow> c \<in> set [CHR 0x09, CHR 0x0A, CHR 0x0B, CHR 0x0C, CHR 0x0D,
     CHR 0x1C, CHR 0x1D, CHR 0x1E, CHR 0x1F, CHR 0x20, CHR 0x85, CHR 0xA0]"

definition strip :: "string \<Rightarrow> string" where
  "strip s = rev (dropWhile isspace (rev (dropWhile isspace s)))"

text \<open>
  The pattern is matched the way a backtracking matcher does it. \<^verbatim>\<open>^\<close> (no
  \<^verbatim>\<open>MULTILINE\<close>) holds at offset 0 only, so \<^verbatim>\<open>re.search\<close> can succeed from the start
  of the string only. \<^verbatim>\<open>$\<close> holds at the end of the string and just before a newline
  that is its last character (\<open>at_end\<close> of what is left). \<^verbatim>\<open>(.*)\<close>, with \<^verbatim>\<open>DOTALL\<close>,
  takes any characters, the longest run first, one character fewer after each failure of
  \<^verbatim>\<open>$\<close> (\<open>dot_star k r\<close>: the group is the first \<open>k\<close> characters of \<open>r\<close>).
  \<^verbatim>\<open>[0-9]*\<close> takes the longest run of digits first and gives one back after each failure
  of what follows (\<open>digit_star k r\<close>: \<open>k\<close> digits of \<open>r\<close> are taken). The result is the
  pair of groups, or \<open>None\<close> when every alternative has failed.
\<close>

definition at_end :: "string \<Rightarrow> bool" where
  "at_end r \<longleftrightarrow> r = [] \<or> r = [CHR 0x0A]"

fun dot_star :: "nat \<Rightarrow> string \<Rightarrow> string option" where
  "dot_star 0 r = (if at_end r then Some [] else None)"
| "dot_star (Suc k) r =
     (if at_end (drop (Suc k) r) then Some (take (Suc k) r) else dot_star k r)"

fun digit_star :: "nat \<Rightarrow> string \<Rightarrow> string option" where
  "digit_star 0 r = dot_star (length r) r"
| "digit_star (Suc k) r =
     (case dot_star (length (drop (Suc k) r)) (drop (Suc k) r) of
        Some g \<Rightarrow> Some g
      | None \<Rightarrow> digit_star k r)"

definition re_search :: "string \<Rightarrow> (string \<times> string) option" where
  "re_search response =
     (case response of
        [] \<Rightarrow> None
      | c # r \<Rightarrow>
          if c = CHR ''='' \<or> c = CHR ''?''
          then map_option (\<lambda>g. ([c], g)) (digit_star (length (takeWhile is_digit r)) r)
          else None)"

definition gtp_cut_response :: "string \<Rightarrow> error + (bool \<times> string)" where
  "gtp_cut_response response =
     (if response = [] then Inl AssertionError
      else if hd response \<notin> set ''=?'' then Inl AssertionError
      else case re_search response of
             None \<Rightarrow> Inl (GtpError ''invalid format'')
           | Some (g0, g1) \<Rightarrow> Inr (g0 = ''='', strip g1))"

section \<open>The move resolver\<close>

subsection \<open>\<^verbatim>\<open>randomize_move\<close>\<close>

text \<open>
  \<^verbatim>\<open>
  def randomize_move(move):
      pr_sum, rnd = 0.0, random.random()
      row, col = move
      for dr, dc  in  [(1, 0), (0, 1), (-1, 0), (0, -1)]:
          pr_sum += args.epsilon
          if rnd <= pr_sum:
              return (row+dr, col+dc)
      return move
  \<close>
  A closure of \<^verbatim>\<open>main\<close>: \<^verbatim>\<open>args.epsilon\<close> is an argument here, and so is the
  draw \<open>rnd\<close>. The loop is \<open>randomize_move_loop\<close>, over the directions still to
  try.
\<close>

fun randomize_move_loop ::
  "'a::{plus,ord} \<Rightarrow> 'a \<Rightarrow> 'a \<Rightarrow> point \<Rightarrow> (int \<times> int) list \<Rightarrow> point" where
  "randomize_move_loop epsilon rnd pr_sum move [] = move"
| "randomize_move_loop epsilon rnd pr_sum move ((dr, dc) # ds) =
     (let pr_sum = pr_sum + epsilon in
      if rnd \<le> pr_sum then (fst move + dr, snd move + dc)
      else randomize_move_loop epsilon rnd pr_sum move ds)"

definition randomize_move :: "'a::{zero,plus,ord} \<Rightarrow> 'a \<Rightarrow> point \<Rightarrow> point" where
  "randomize_move epsilon rnd move =
     randomize_move_loop epsilon rnd 0 move [(1, 0), (0, 1), (- 1, 0), (0, - 1)]"

subsection \<open>Text of an integer\<close>

text \<open>
  \<open>str_int n\<close> is the decimal text of an integer, Python's \<^verbatim>\<open>'%d' % n\<close>.
\<close>

fun str_nat :: "nat \<Rightarrow> string" where
  "str_nat n =
     (if n < 10 then [''0123456789'' ! n]
      else str_nat (n div 10) @ [''0123456789'' ! (n mod 10)])"

declare str_nat.simps [simp del]

definition str_int :: "int \<Rightarrow> string" where
  "str_int i = (if i < 0 then CHR ''-'' # str_nat (nat (- i)) else str_nat (nat i))"

subsection \<open>What the referee takes from outside\<close>

text \<open>
  The board, the vertex notation and the random generator are not part of the referee:
  they come from the gomill library and from Python's \<^verbatim>\<open>random\<close> module. The model
  takes them as a parameter, a record with one field per function the referee calls:
  \<^item> \<open>Board n\<close> is \<^verbatim>\<open>gomill.boards.Board(n)\<close>, \<open>side\<close> its attribute;
  \<^item> \<open>play b row col colour\<close> is \<^verbatim>\<open>b.play(row, col, colour)\<close>: the board after the
    move and the point forbidden by ko, or the exception raised (\<open>IndexError\<close> off the
    board, \<open>ValueError\<close> on a point that is not empty); the board is a value, so
    playing on \<^verbatim>\<open>copy.deepcopy(b)\<close> is playing on \<open>b\<close> and dropping the result;
  \<^item> \<open>move_from_vertex\<close> and \<open>format_vertex\<close> are the functions of
    \<^verbatim>\<open>gomill.common\<close>;
  \<^item> \<open>format_1f v\<close> is the text of \<^verbatim>\<open>'%.1f' % v\<close>;
  \<^item> \<open>random n\<close> is the value that \<^verbatim>\<open>random.random()\<close> returns when it is called
    in turn number \<open>n\<close> (it is called at most once in a turn).
  Floating-point numbers are values of a type \<open>'a\<close> of which the definitions use
  \<open>0\<close>, \<open>+\<close> and \<open>\<le>\<close> only.
\<close>

record ('b, 'a) ext =
  Board :: "int \<Rightarrow> board_error + 'b"
  side :: "'b \<Rightarrow> int"
  play :: "'b \<Rightarrow> int \<Rightarrow> int \<Rightarrow> string \<Rightarrow> board_error + 'b \<times> point option"
  move_from_vertex :: "string \<Rightarrow> int \<Rightarrow> board_error + point"
  format_vertex :: "point \<Rightarrow> string"
  format_1f :: "'a \<Rightarrow> string"
  random :: "nat \<Rightarrow> 'a"

text \<open>The command line, as \<^verbatim>\<open>parse_args\<close> returns it (the two engine commands apart).\<close>

record 'a args =
  boardsize :: int
  komi :: 'a
  epsilon :: 'a
  allow_invalid :: bool
  print_board :: bool

text \<open>
  \<^verbatim>\<open>str.lower()\<close> on the letters of ASCII; every string it is applied to was decoded
  from ASCII or is a colour letter.
\<close>

definition lower_char :: "char \<Rightarrow> char" where
  "lower_char c =
     (case map_of (zip ''ABCDEFGHIJKLMNOPQRSTUVWXYZ'' ''abcdefghijklmnopqrstuvwxyz'') c of
        Some d \<Rightarrow> d
      | None \<Rightarrow> c)"

definition lower :: "string \<Rightarrow> string" where
  "lower s = map lower_char s"

subsection \<open>\<^verbatim>\<open>is_move_valid\<close> and \<^verbatim>\<open>response2move\<close>\<close>

text \<open>
  \<^verbatim>\<open>
  def is_move_valid(move, color):
      if move == ko_move:
          return False
      bc = copy.deepcopy(b)
      try:
          row, col = move
          bc.play(row, col, color.lower())
      except (IndexError, ValueError):  # out of board, point not empty
          return False
      return True
  \<close>
  Both are closures of \<^verbatim>\<open>main\<close>; what they read of its variables (\<^verbatim>\<open>b\<close>,
  \<^verbatim>\<open>ko_move\<close>, \<^verbatim>\<open>args\<close>, \<^verbatim>\<open>player.color\<close>) is an argument here.
\<close>

definition is_move_valid ::
  "('b, 'a) ext \<Rightarrow> 'b \<Rightarrow> point option \<Rightarrow> point \<Rightarrow> string \<Rightarrow> bool" where
  "is_move_valid x b ko_move move color =
     (if Some move = ko_move then False
      else case move of (row, col) \<Rightarrow>
        (case play x b row col (lower color) of
           Inl _ \<Rightarrow> False
         | Inr _ \<Rightarrow> True))"

text \<open>
  \<^verbatim>\<open>
  def response2move(response):
      if response.lower() == 'pass':
          return True, 'pass'
      move = move_from_vertex(response, b.side)
      if not args.allow_invalid and not is_move_valid(move, player.color):
          logging.warn(...)
          return False, 'skip'
      move_rnd = randomize_move(move)
      if not is_move_valid(move_rnd, player.color):
          return False, 'skip'
      return move == move_rnd, move_rnd
  \<close>
  The warning is written to the log and changes nothing else; it is left out. An
  exception of \<^verbatim>\<open>move_from_vertex\<close> is not caught and leaves the function.
\<close>

definition response2move ::
  "('b, 'a::{zero,plus,ord}) ext \<Rightarrow> 'a args \<Rightarrow> 'b \<Rightarrow> point option \<Rightarrow> string \<Rightarrow> 'a \<Rightarrow> string
     \<Rightarrow> error + bool \<times> move" where
  "response2move x args b ko_move color rnd response =
     (if lower response = ''pass'' then Inr (True, Pass)
      else case move_from_vertex x response (side x b) of
        Inl e \<Rightarrow> Inl (Raised e)
      | Inr move \<Rightarrow>
          if \<not> allow_invalid args \<and> \<not> is_move_valid x b ko_move move color
          then Inr (False, Skip)
          else let move_rnd = randomize_move (epsilon args) rnd move in
            if \<not> is_move_valid x b ko_move move_rnd color then Inr (False, Skip)
            else Inr (move = move_rnd, Pt move_rnd))"

section \<open>The engine channel: \<^verbatim>\<open>GtpBot\<close>\<close>

text \<open>
  An engine is a process behind two pipes. \<open>stdout\<close> holds the lines the process
  still emits before it closes its output, each as \<^verbatim>\<open>readline()\<close> returns it, and
  \<open>stdin\<close> what the referee has written to it so far, one entry per call of
  \<^verbatim>\<open>write\<close>. \<^verbatim>\<open>readline()\<close> takes the first pending line and returns the empty
  string once none is left. Every run of the referee that comes to an end has read finitely
  many lines, so a list covers it; a run that waits for ever for an engine has no exit and
  no result. The referee's own output (the \<^verbatim>\<open>print\<close> calls, the log, the rendered
  board) has no effect on what it does next and is left out.
\<close>

record proc =
  stdout :: "string list"
  stdin :: "string list"

record GtpBot =
  color :: string
  has_passed :: bool
  p :: proc
  commands :: "string list"
  name :: string

text \<open>
  \<^verbatim>\<open>
  def write(self, gtp_cmd):
      self.p.stdin.write(bytes(gtp_cmd + "\n", 'ascii'))
      self.p.stdin.flush()
  \<close>
  Every command the referee builds is ASCII text, and the pipe is taken to accept it: a
  write has no failure in this model. The function is \<open>bot_write\<close> here, because
  \<^verbatim>\<open>write\<close> is a word of the proof language.
\<close>

definition bot_write :: "string \<Rightarrow> GtpBot \<Rightarrow> GtpBot" where
  "bot_write gtp_cmd self = self\<lparr>p := (p self)\<lparr>stdin := stdin (p self) @ [gtp_cmd @ [CHR 0x0A]]\<rparr>\<rparr>"

text \<open>
  \<^verbatim>\<open>
  def raw_read(self):
      lines = []
      prev = "######"
      while True:
          line = self.p.stdout.readline().decode('ascii')
          lines.append(line)
          if not line:
              break
          if prev[-1] == "\n" and line == "\n":
              break
          prev = line
      return "".join(lines)
  \<close>
  The loop is \<open>raw_read_loop\<close> over the pending lines; it returns the lines read and
  the lines still pending. A line with a byte above 127 cannot be decoded. \<open>prev\<close> is
  never empty, so \<^verbatim>\<open>prev[-1]\<close> is its last character.
\<close>

definition ascii :: "string \<Rightarrow> bool" where
  "ascii s = list_all (\<lambda>c. (of_char c :: nat) < 128) s"

fun raw_read_loop ::
  "string list \<Rightarrow> string \<Rightarrow> string list \<Rightarrow> (error + string list) \<times> string list" where
  "raw_read_loop lines prev [] = (Inr (lines @ [[]]), [])"
| "raw_read_loop lines prev (line # pending) =
     (if \<not> ascii line then (Inl UnicodeDecodeError, pending)
      else if line = [] then (Inr (lines @ [line]), pending)
      else if last prev = CHR 0x0A \<and> line = [CHR 0x0A] then (Inr (lines @ [line]), pending)
      else raw_read_loop (lines @ [line]) line pending)"

definition raw_read :: "GtpBot \<Rightarrow> (error + string) \<times> GtpBot" where
  "raw_read self =
     (case raw_read_loop [] ''######'' (stdout (p self)) of
        (Inl e, pending) \<Rightarrow> (Inl e, self\<lparr>p := (p self)\<lparr>stdout := pending\<rparr>\<rparr>)
      | (Inr lines, pending) \<Rightarrow> (Inr (concat lines), self\<lparr>p := (p self)\<lparr>stdout := pending\<rparr>\<rparr>))"

text \<open>
  \<^verbatim>\<open>
  def read(self):
      response = self.raw_read()
      cut = gtp_cut_response(response)
      return cut

  def interact(self, gtp_cmd):
      self.write(gtp_cmd)
      return self.read()
  \<close>
\<close>

definition read :: "GtpBot \<Rightarrow> (error + bool \<times> string) \<times> GtpBot" where
  "read self =
     (case raw_read self of
        (Inl e, self) \<Rightarrow> (Inl e, self)
      | (Inr response, self) \<Rightarrow> (gtp_cut_response response, self))"

definition interact :: "string \<Rightarrow> GtpBot \<Rightarrow> (error + bool \<times> string) \<times> GtpBot" where
  "interact gtp_cmd self = read (bot_write gtp_cmd self)"

text \<open>
  \<^verbatim>\<open>
  def __init__(self, bot_cmd, color):
      ...
      self.color = color
      self.has_passed = False
      self.p = subprocess.Popen(self.bot_cmd, ...)
      success, response = self.interact('list_commands')
      assert success
      self.commands = response.split('\n')
      success, response = self.interact('name')
      assert success
      self.name = response
  \<close>
  The constructor takes the process that \<^verbatim>\<open>Popen\<close> has started. It returns the
  exception that ended it, if any, with the object as far as it was built, so that what
  the process has been sent stays visible.
\<close>

fun split :: "char \<Rightarrow> string \<Rightarrow> string list" where
  "split sep [] = [[]]"
| "split sep (c # cs) =
     (if c = sep then [] # split sep cs
      else case split sep cs of
             [] \<Rightarrow> [[c]]
           | w # ws \<Rightarrow> (c # w) # ws)"

definition GtpBot_init :: "proc \<Rightarrow> string \<Rightarrow> error option \<times> GtpBot" where
  "GtpBot_init process colour =
     (let self = \<lparr>color = colour, has_passed = False, p = process, commands = [], name = []\<rparr>
      in case interact ''list_commands'' self of
        (Inl e, self) \<Rightarrow> (Some e, self)
      | (Inr (success, response), self) \<Rightarrow>
          if \<not> success then (Some AssertionError, self)
          else let self = self\<lparr>commands := split (CHR 0x0A) response\<rparr>
            in case interact ''name'' self of
              (Inl e, self) \<Rightarrow> (Some e, self)
            | (Inr (success, response), self) \<Rightarrow>
                if \<not> success then (Some AssertionError, self)
                else (None, self\<lparr>name := response\<rparr>))"

section \<open>The game loop: \<^verbatim>\<open>main\<close>\<close>

text \<open>
  \<^verbatim>\<open>
  def format_move(move):
      if move in ['pass', 'skip']:
          return move
      return format_vertex(move)
  \<close>
\<close>

definition format_move :: "('b, 'a) ext \<Rightarrow> move \<Rightarrow> string" where
  "format_move x move =
     (case move of Pass \<Rightarrow> ''pass'' | Skip \<Rightarrow> ''skip'' | Pt v \<Rightarrow> format_vertex x v)"

text \<open>The variables of \<^verbatim>\<open>main\<close> that the loop reads and writes.\<close>

record 'b state =
  b :: 'b
  player :: GtpBot
  opponent :: GtpBot
  ko_move :: "point option"
  movenum :: nat

text \<open>
  \<^verbatim>\<open>
  black = GtpBot(args.black_cmd, 'B')
  white = GtpBot(args.white_cmd, 'W')
  black.interact('boardsize %d'%args.boardsize)
  white.interact('boardsize %d'%args.boardsize)
  black.interact('komi %.1f'%args.komi)
  white.interact('komi %.1f'%args.komi)
  b = gomill.boards.Board(args.boardsize)
  player, opponent = black, white
  ko_move = None
  movenum = 0
  \<close>
  \<open>startup\<close> is \<^verbatim>\<open>main\<close> up to its \<^verbatim>\<open>try\<close>. An exception here leaves
  \<^verbatim>\<open>main\<close> at once; it is returned with the channels made so far. The values that
  \<^verbatim>\<open>interact\<close> returns are dropped, as in the source.
\<close>

definition startup ::
  "('b, 'a) ext \<Rightarrow> 'a args \<Rightarrow> proc \<Rightarrow> proc \<Rightarrow> error \<times> GtpBot list + 'b state" where
  "startup x args black_p white_p =
     (case GtpBot_init black_p ''B'' of
        (Some e, black) \<Rightarrow> Inl (e, [black])
      | (None, black) \<Rightarrow>
     (case GtpBot_init white_p ''W'' of
        (Some e, white) \<Rightarrow> Inl (e, [black, white])
      | (None, white) \<Rightarrow>
     (case interact (''boardsize '' @ str_int (boardsize args)) black of
        (Inl e, black) \<Rightarrow> Inl (e, [black, white])
      | (Inr _, black) \<Rightarrow>
     (case interact (''boardsize '' @ str_int (boardsize args)) white of
        (Inl e, white) \<Rightarrow> Inl (e, [black, white])
      | (Inr _, white) \<Rightarrow>
     (case interact (''komi '' @ format_1f x (komi args)) black of
        (Inl e, black) \<Rightarrow> Inl (e, [black, white])
      | (Inr _, black) \<Rightarrow>
     (case interact (''komi '' @ format_1f x (komi args)) white of
        (Inl e, white) \<Rightarrow> Inl (e, [black, white])
      | (Inr _, white) \<Rightarrow>
     (case Board x (boardsize args) of
        Inl e \<Rightarrow> Inl (Raised e, [black, white])
      | Inr board \<Rightarrow>
          Inr \<lparr>b = board, player = black, opponent = white, ko_move = None,
               movenum = 0\<rparr>)))))))"

text \<open>
  One pass through the body of \<^verbatim>\<open>while True\<close>, up to the test for the double pass:
  \<^verbatim>\<open>
  player.write('frisbee-reg_genmove %s'%(player.color))
  success, response = player.read()
  assert success
  player_has_his_way, move = response2move(response)
  player.has_passed = move == 'pass'
  if move in ['skip', 'pass']:
      ko_move = None
  else:
      row, col = move
      ko_move = b.play(row, col, player.color.lower())
  player.interact('frisbee-play %s %s'%(player.color, format_move(move)))
  opponent.interact('frisbee-play %s %s'%(player.color, format_move(move)))
  if player.has_passed and opponent.has_passed:
      break
  \<close>
  \<open>apply_move\<close> is the \<^verbatim>\<open>if\<close> on the move. \<open>turn\<close> returns the exception
  that ended the pass, or the committed move and whether the loop breaks, and in both
  cases the variables as they are at that point.
\<close>

definition apply_move :: "('b, 'a) ext \<Rightarrow> move \<Rightarrow> 'b state \<Rightarrow> error + 'b state" where
  "apply_move x move s =
     (case move of
        Pt (row, col) \<Rightarrow>
          (case play x (b s) row col (lower (color (player s))) of
             Inl e \<Rightarrow> Inl (Raised e)
           | Inr (board, ko) \<Rightarrow> Inr (s\<lparr>b := board, ko_move := ko\<rparr>))
      | _ \<Rightarrow> Inr (s\<lparr>ko_move := None\<rparr>))"

definition turn ::
  "('b, 'a::{zero,plus,ord}) ext \<Rightarrow> 'a args \<Rightarrow> 'b state \<Rightarrow> (error + move \<times> bool) \<times> 'b state" where
  "turn x args s0 =
     (let s = s0\<lparr>player := bot_write (''frisbee-reg_genmove '' @ color (player s0)) (player s0)\<rparr>
      in case read (player s) of
        (Inl e, pl) \<Rightarrow> (Inl e, s\<lparr>player := pl\<rparr>)
      | (Inr (success, response), pl) \<Rightarrow>
          let s = s\<lparr>player := pl\<rparr> in
          if \<not> success then (Inl AssertionError, s)
          else
            case response2move x args (b s) (ko_move s) (color (player s))
                   (random x (movenum s)) response of
              Inl e \<Rightarrow> (Inl e, s)
            | Inr (player_has_his_way, move) \<Rightarrow>
                let s = s\<lparr>player := (player s)\<lparr>has_passed := (move = Pass)\<rparr>\<rparr> in
                case apply_move x move s of
                  Inl e \<Rightarrow> (Inl e, s)
                | Inr s \<Rightarrow>
                    let cmd = ''frisbee-play '' @ color (player s) @ '' '' @ format_move x move
                    in case interact cmd (player s) of
                      (Inl e, pl) \<Rightarrow> (Inl e, s\<lparr>player := pl\<rparr>)
                    | (Inr _, pl) \<Rightarrow>
                        let s = s\<lparr>player := pl\<rparr> in
                        case interact cmd (opponent s) of
                          (Inl e, op) \<Rightarrow> (Inl e, s\<lparr>opponent := op\<rparr>)
                        | (Inr _, op) \<Rightarrow>
                            let s = s\<lparr>opponent := op\<rparr> in
                            (Inr (move, has_passed (player s) \<and> has_passed (opponent s)), s))"

text \<open>
  \<^verbatim>\<open>
  # update invariants
  player, opponent = opponent, player
  movenum += 1
  \<close>
\<close>

definition next_turn :: "'b state \<Rightarrow> 'b state" where
  "next_turn s = s\<lparr>player := opponent s, opponent := player s, movenum := movenum s + 1\<rparr>"

subsection \<open>What an exchange with an engine changes\<close>

text \<open>
  Reading takes lines from the head of \<open>stdout\<close> and writing adds a line at the end of
  \<open>stdin\<close>; nothing else of a channel changes. A read that returns a framed response
  has taken at least one line, since the empty string fails in the framer.
\<close>

lemma raw_read_loop_pending:
  "raw_read_loop ls prev xs = (r, rest) \<Longrightarrow> length rest \<le> length xs"
  by (induction xs arbitrary: ls prev) (auto split: if_splits dest: le_SucI)

lemma raw_read_loop_progress:
  "raw_read_loop ls prev (l # xs) = (r, rest) \<Longrightarrow> length rest \<le> length xs"
  by (auto split: if_splits dest: raw_read_loop_pending)

lemma raw_read_frame:
  assumes "raw_read self = (r, self')"
  shows "color self' = color self" "has_passed self' = has_passed self"
    "stdin (p self') = stdin (p self)" "commands self' = commands self" "name self' = name self"
    "length (stdout (p self')) \<le> length (stdout (p self))"
  using assms by (auto simp: raw_read_def split: prod.splits sum.splits dest: raw_read_loop_pending)

lemma raw_read_closed:
  "stdout (p self) = [] \<Longrightarrow> fst (raw_read self) = Inr []"
  by (simp add: raw_read_def)

lemma raw_read_progress:
  assumes "raw_read self = (r, self')" and "stdout (p self) \<noteq> []"
  shows "length (stdout (p self')) < length (stdout (p self))"
proof -
  from assms(2) obtain l xs where "stdout (p self) = l # xs" by (cases "stdout (p self)") auto
  with assms(1) show ?thesis
    by (auto simp: raw_read_def split: prod.splits sum.splits if_splits dest!: raw_read_loop_pending)
qed

lemma read_frame:
  assumes "read self = (r, self')"
  shows "color self' = color self" "has_passed self' = has_passed self"
    "stdin (p self') = stdin (p self)" "commands self' = commands self" "name self' = name self"
    "length (stdout (p self')) \<le> length (stdout (p self))"
  using assms by (auto simp: read_def split: prod.splits sum.splits dest: raw_read_frame)

lemma read_Inr_progress:
  assumes "read self = (Inr v, self')"
  shows "length (stdout (p self')) < length (stdout (p self))"
proof (cases "stdout (p self) = []")
  case True
  then have "fst (raw_read self) = Inr []" by (rule raw_read_closed)
  with assms show ?thesis
    by (auto simp: read_def gtp_cut_response_def split: prod.splits sum.splits)
next
  case False
  with assms show ?thesis
    by (auto simp: read_def split: prod.splits sum.splits dest: raw_read_progress)
qed

lemma bot_write_frame [simp]:
  "color (bot_write cmd self) = color self"
  "has_passed (bot_write cmd self) = has_passed self"
  "stdout (p (bot_write cmd self)) = stdout (p self)"
  "stdin (p (bot_write cmd self)) = stdin (p self) @ [cmd @ [CHR 0x0A]]"
  "commands (bot_write cmd self) = commands self"
  "name (bot_write cmd self) = name self"
  by (simp_all add: bot_write_def)

lemma interact_frame:
  assumes "interact cmd self = (r, self')"
  shows "color self' = color self" "has_passed self' = has_passed self"
    "stdin (p self') = stdin (p self) @ [cmd @ [CHR 0x0A]]"
    "commands self' = commands self" "name self' = name self"
    "length (stdout (p self')) \<le> length (stdout (p self))"
  using assms read_frame [of "bot_write cmd self" r self'] by (simp_all add: interact_def)

lemma apply_move_frame:
  assumes "apply_move x m s = Inr s'"
  shows "player s' = player s" "opponent s' = opponent s" "movenum s' = movenum s"
  using assms by (auto simp: apply_move_def split: move.splits sum.splits prod.splits)

lemma turn_InrE:
  assumes "turn x args s = (Inr (m, stop), s')"
  obtains response pl1 hw s1 r2 pl2 r3 op2 where
    "read (bot_write (''frisbee-reg_genmove '' @ color (player s)) (player s))
       = (Inr (True, response), pl1)"
    "response2move x args (b s) (ko_move s) (color pl1) (random x (movenum s)) response
       = Inr (hw, m)"
    "apply_move x m (s\<lparr>player := pl1\<lparr>has_passed := (m = Pass)\<rparr>\<rparr>) = Inr s1"
    "interact (''frisbee-play '' @ color (player s1) @ '' '' @ format_move x m) (player s1)
       = (Inr r2, pl2)"
    "interact (''frisbee-play '' @ color (player s1) @ '' '' @ format_move x m) (opponent s1)
       = (Inr r3, op2)"
    "s' = s1\<lparr>player := pl2, opponent := op2\<rparr>"
    "stop = (has_passed pl2 \<and> has_passed op2)"
  using assms
  by (auto simp: turn_def Let_def split: prod.splits sum.splits if_splits)

subsection \<open>The loop and its exit\<close>

text \<open>
  Each turn that does not end in an exception takes at least one line from one of the two
  engines, so the number of lines still pending is a measure for the loop.
\<close>

definition pending :: "'b state \<Rightarrow> nat" where
  "pending s = length (stdout (p (player s))) + length (stdout (p (opponent s)))"

lemma turn_pending:
  assumes "turn x args s = (Inr v, s')"
  shows "pending s' < pending s"
proof -
  obtain m stop where v: "v = (m, stop)" by (cases v)
  from assms [unfolded v] show ?thesis
  proof (rule turn_InrE)
    fix response pl1 hw s1 r2 pl2 r3 op2
    assume rd: "read (bot_write (''frisbee-reg_genmove '' @ color (player s)) (player s))
        = (Inr (True, response), pl1)"
      and ap: "apply_move x m (s\<lparr>player := pl1\<lparr>has_passed := (m = Pass)\<rparr>\<rparr>) = Inr s1"
      and i1: "interact (''frisbee-play '' @ color (player s1) @ '' '' @ format_move x m)
          (player s1) = (Inr r2, pl2)"
      and i2: "interact (''frisbee-play '' @ color (player s1) @ '' '' @ format_move x m)
          (opponent s1) = (Inr r3, op2)"
      and s': "s' = s1\<lparr>player := pl2, opponent := op2\<rparr>"
    from read_Inr_progress [OF rd]
    have "length (stdout (p pl1)) < length (stdout (p (player s)))" by simp
    moreover from apply_move_frame [OF ap]
    have "player s1 = pl1\<lparr>has_passed := (m = Pass)\<rparr>" "opponent s1 = opponent s" by simp_all
    moreover note interact_frame(6) [OF i1] interact_frame(6) [OF i2]
    ultimately show ?thesis by (simp add: pending_def s')
  qed
qed

text \<open>
  \<^verbatim>\<open>
  try:
      while True:
          ...
          if player.has_passed and opponent.has_passed:
              break
          # update invariants
          player, opponent = opponent, player
          movenum += 1
  finally:
      player.write('quit')
      opponent.write('quit')
  \<close>
  \<open>game_loop\<close> is the \<^verbatim>\<open>while\<close> loop: it returns the exception that left it, or
  \<open>None\<close> after the \<^verbatim>\<open>break\<close>, and the variables at that point. \<open>main\<close> is
  the whole function: \<open>Startup_failed\<close> is an exception before the \<^verbatim>\<open>try\<close>, with
  the channels made so far, and \<open>Finished\<close> is the exit through \<^verbatim>\<open>finally\<close>, after
  the two writes, with the exception that goes on to the caller, if any.
\<close>

function game_loop ::
  "('b, 'a::{zero,plus,ord}) ext \<Rightarrow> 'a args \<Rightarrow> 'b state \<Rightarrow> error option \<times> 'b state" where
  "game_loop x args s =
     (case turn x args s of
        (Inl e, s') \<Rightarrow> (Some e, s')
      | (Inr (move, stop), s') \<Rightarrow>
          if stop then (None, s') else game_loop x args (next_turn s'))"
  by pat_completeness auto
termination
proof (relation "measure (\<lambda>(x, args, s). pending s)", goal_cases)
  case 1
  show ?case by simp
next
  case (2 x args s r s' v move stop)
  then have "turn x args s = (Inr v, s')" by simp
  then have "pending s' < pending s" by (rule turn_pending)
  then show ?case by (simp add: pending_def next_turn_def)
qed

declare game_loop.simps [simp del]

datatype 'b exit = Startup_failed error "GtpBot list" | Finished "error option" "'b state"

definition main :: "('b, 'a::{zero,plus,ord}) ext \<Rightarrow> 'a args \<Rightarrow> proc \<Rightarrow> proc \<Rightarrow> 'b exit" where
  "main x args black_p white_p =
     (case startup x args black_p white_p of
        Inl (e, bots) \<Rightarrow> Startup_failed e bots
      | Inr s0 \<Rightarrow>
          (case game_loop x args s0 of
             (r, s) \<Rightarrow>
               let s = s\<lparr>player := bot_write ''quit'' (player s)\<rparr>;
                   s = s\<lparr>opponent := bot_write ''quit'' (opponent s)\<rparr>
               in Finished r s))"

section \<open>Notions used in the statements\<close>

text \<open>
  \<open>reads_on prev ls\<close>: none of the lines \<open>ls\<close>, read after the line \<open>prev\<close>, stops
  the reading. A line stops it when it is empty (the stream is closed) or when it is a
  blank line and the line before it ends with a newline.
\<close>

fun reads_on :: "string \<Rightarrow> string list \<Rightarrow> bool" where
  "reads_on prev [] = True"
| "reads_on prev (l # ls) =
     (l \<noteq> [] \<and> \<not> (l = [CHR 0x0A] \<and> last prev = CHR 0x0A) \<and> reads_on l ls)"

text \<open>
  \<open>all_sent P\<close> holds of a channel when every line written to its engine satisfies
  \<open>P\<close>.
\<close>

definition all_sent :: "(string \<Rightarrow> bool) \<Rightarrow> GtpBot \<Rightarrow> bool" where
  "all_sent P self = list_all P (stdin (p self))"

text \<open>
  \<open>response_lines c t\<close> is a response as the engine emits it: a line with the marker
  \<open>c\<close> and the text \<open>t\<close>, and the blank line. It is \<open>framed\<close> when the marker
  is \<^verbatim>\<open>=\<close> or \<^verbatim>\<open>?\<close> and the text is ASCII.
\<close>

definition framed :: "char \<Rightarrow> string \<Rightarrow> bool" where
  "framed c t \<longleftrightarrow> (c = CHR ''='' \<or> c = CHR ''?'') \<and> ascii t"

definition response_lines :: "char \<Rightarrow> string \<Rightarrow> string list" where
  "response_lines c t = [c # t @ [CHR 0x0A], [CHR 0x0A]]"

text \<open>
  \<open>transcript\<close> is everything the referee has written to the engines when
  \<^verbatim>\<open>main\<close> is left, channel by channel. \<open>roles_kept\<close>: the two channels of the
  loop are the black one and the white one, in either order.
\<close>

definition transcript :: "'b exit \<Rightarrow> string list" where
  "transcript out =
     (case out of
        Startup_failed e bots \<Rightarrow> concat (map (\<lambda>bot. stdin (p bot)) bots)
      | Finished r s \<Rightarrow> stdin (p (player s)) @ stdin (p (opponent s)))"

definition roles_kept :: "'b state \<Rightarrow> bool" where
  "roles_kept s \<longleftrightarrow>
     color (player s) = ''B'' \<and> color (opponent s) = ''W''
     \<or> color (player s) = ''W'' \<and> color (opponent s) = ''B''"

section \<open>A board and engines for the worked examples\<close>

text \<open>
  The worked examples need a value for the parameter. \<open>grid_ext\<close> is a small stand-in
  for gomill that follows its documented behaviour where no stone is captured: a square
  grid that refuses a point off the grid with \<open>IndexError\<close> and an occupied point with
  \<open>ValueError\<close>, never captures and so never returns a ko point; GTP vertices are a
  column letter (\<^verbatim>\<open>i\<close> is skipped) and a row number from 1. Floating-point
  numbers are real numbers, the draws are a parameter, and \<open>format_1f\<close> is fixed to
  \<^verbatim>\<open>7.5\<close>, the text of the komi that every example uses. \<open>args0\<close> is the command
  line of the examples, with epsilon 0 and illegal proposals not tolerated, and
  \<open>empty5\<close> the empty board of side 5.
\<close>

fun position :: "char \<Rightarrow> string \<Rightarrow> int option" where
  "position c [] = None"
| "position c (d # ds) = (if c = d then Some 0 else map_option (\<lambda>i. i + 1) (position c ds))"

fun int_of_digits :: "int \<Rightarrow> string \<Rightarrow> int option" where
  "int_of_digits acc [] = Some acc"
| "int_of_digits acc (c # cs) =
     (case position c ''0123456789'' of
        None \<Rightarrow> None
      | Some d \<Rightarrow> int_of_digits (10 * acc + d) cs)"

record grid =
  grid_side :: int
  stones :: "(point \<times> string) list"

definition grid_play ::
  "grid \<Rightarrow> int \<Rightarrow> int \<Rightarrow> string \<Rightarrow> board_error + grid \<times> point option" where
  "grid_play g row col colour =
     (if row < 0 \<or> col < 0 \<or> grid_side g \<le> row \<or> grid_side g \<le> col then Inl IndexError
      else if map_of (stones g) (row, col) \<noteq> None then Inl ValueError
      else Inr (g\<lparr>stones := ((row, col), colour) # stones g\<rparr>, None))"

definition grid_move_from_vertex :: "string \<Rightarrow> int \<Rightarrow> board_error + point" where
  "grid_move_from_vertex vertex board_size =
     (case lower vertex of
        [] \<Rightarrow> Inl ValueError
      | c # ds \<Rightarrow>
          (case (position c ''abcdefghjklmnopqrstuvwxyz'',
                 if ds = [] then None else int_of_digits 0 ds) of
             (Some col, Some n) \<Rightarrow>
               if 0 < n \<and> n \<le> board_size \<and> col < board_size then Inr (n - 1, col)
               else Inl ValueError
           | _ \<Rightarrow> Inl ValueError))"

definition grid_format_vertex :: "point \<Rightarrow> string" where
  "grid_format_vertex move =
     (case move of (row, col) \<Rightarrow> (''ABCDEFGHJKLMNOPQRSTUVWXYZ'' ! nat col) # str_int (row + 1))"

definition grid_ext :: "(nat \<Rightarrow> real) \<Rightarrow> (grid, real) ext" where
  "grid_ext rnd =
     \<lparr>Board = (\<lambda>n. if 2 \<le> n \<and> n \<le> 25 then Inr \<lparr>grid_side = n, stones = []\<rparr>
                    else Inl ValueError),
      side = grid_side,
      play = grid_play,
      move_from_vertex = grid_move_from_vertex,
      format_vertex = grid_format_vertex,
      format_1f = (\<lambda>_. ''7.5''),
      random = rnd\<rparr>"

definition args0 :: "real args" where
  "args0 = \<lparr>boardsize = 5, komi = 7.5, epsilon = 0, allow_invalid = False,
     print_board = False\<rparr>"

definition empty5 :: grid where
  "empty5 = \<lparr>grid_side = 5, stones = []\<rparr>"

text \<open>
  An engine of the examples is a script: the texts of its responses in the order in which
  it gives them, each followed by the blank line that ends a GTP response, as
  \<^verbatim>\<open>test_bot.py\<close> prints them (\<^verbatim>\<open>'=%s %s\n\n'\<close>). \<open>engine\<close> is a channel
  whose process emits the given lines and has been sent nothing.
\<close>

definition reply :: "string \<Rightarrow> string list" where
  "reply text = [text @ [CHR 0x0A], [CHR 0x0A]]"

definition script :: "string list \<Rightarrow> proc" where
  "script texts = \<lparr>stdout = concat (map reply texts), stdin = []\<rparr>"

definition engine :: "string list \<Rightarrow> GtpBot" where
  "engine ls = \<lparr>color = ''B'', has_passed = False, p = \<lparr>stdout = ls, stdin = []\<rparr>,
     commands = [], name = []\<rparr>"

text \<open>
  \<open>channel\<close> is the channel of an engine that has told its name, in terms of the
  responses it still gives and the commands it has been sent.
\<close>

definition channel :: "string \<Rightarrow> string \<Rightarrow> bool \<Rightarrow> string list \<Rightarrow> string list \<Rightarrow> GtpBot" where
  "channel c nm passed texts cmds =
     \<lparr>color = c, has_passed = passed,
      p = \<lparr>stdout = concat (map reply texts), stdin = map (\<lambda>l. l @ [CHR 0x0A]) cmds\<rparr>,
      commands = [''name''], name = nm\<rparr>"

text \<open>
  Two engines that answer every command with success and pass at their first turn, and
  the variables of \<^verbatim>\<open>main\<close> when the loop is entered with them on a board of side 5.
\<close>

definition passing_black :: proc where
  "passing_black = script [''= name'', ''= black'', ''= '', ''= '', ''= pass'', ''= '', ''= '']"

definition passing_white :: proc where
  "passing_white = script [''= name'', ''= white'', ''= '', ''= '', ''= '', ''= pass'', ''= '']"

definition pass_start :: "grid state" where
  "pass_start =
     \<lparr>b = empty5,
      player = channel ''B'' ''black'' False [''= pass'', ''= '', ''= '']
        [''list_commands'', ''name'', ''boardsize 5'', ''komi 7.5''],
      opponent = channel ''W'' ''white'' False [''= '', ''= pass'', ''= '']
        [''list_commands'', ''name'', ''boardsize 5'', ''komi 7.5''],
      ko_move = None, movenum = 0\<rparr>"

text \<open>
  Engines that reject \<^verbatim>\<open>boardsize\<close>, \<^verbatim>\<open>komi\<close> and \<^verbatim>\<open>frisbee-play\<close> with
  \<^verbatim>\<open>? unknown command\<close> and pass at their first turn, and the variables of
  \<^verbatim>\<open>main\<close> when the loop is entered with them.
\<close>

definition rejecting_black :: proc where
  "rejecting_black = script [''= name'', ''= black'', ''? unknown command'',
     ''? unknown command'', ''= pass'', ''? unknown command'', ''? unknown command'']"

definition rejecting_white :: proc where
  "rejecting_white = script [''= name'', ''= white'', ''? unknown command'',
     ''? unknown command'', ''? unknown command'', ''= pass'', ''? unknown command'']"

definition reject_start :: "grid state" where
  "reject_start =
     \<lparr>b = empty5,
      player = channel ''B'' ''black'' False
        [''= pass'', ''? unknown command'', ''? unknown command'']
        [''list_commands'', ''name'', ''boardsize 5'', ''komi 7.5''],
      opponent = channel ''W'' ''white'' False
        [''? unknown command'', ''= pass'', ''? unknown command'']
        [''list_commands'', ''name'', ''boardsize 5'', ''komi 7.5''],
      ko_move = None, movenum = 0\<rparr>"

text \<open>
  A white engine that closes its output after the response to black's move, so that the
  read of its proposal fails in the framer, and a black engine that rejects
  \<^verbatim>\<open>list_commands\<close>.
\<close>

definition closing_white :: proc where
  "closing_white = script [''= name'', ''= white'', ''= '', ''= '', ''= '']"

definition close_start :: "grid state" where
  "close_start =
     \<lparr>b = empty5,
      player = channel ''B'' ''black'' False [''= pass'', ''= '', ''= '']
        [''list_commands'', ''name'', ''boardsize 5'', ''komi 7.5''],
      opponent = channel ''W'' ''white'' False [''= '']
        [''list_commands'', ''name'', ''boardsize 5'', ''komi 7.5''],
      ko_move = None, movenum = 0\<rparr>"

definition refusing_black :: proc where
  "refusing_black = script [''? unknown command'']"

section \<open>Properties of the response framer\<close>

lemma dot_star_all: "dot_star (length r) r = Some r"
  by (cases "length r") (auto simp: at_end_def)

lemma digit_star_drop: "digit_star k r = Some (drop k r)"
proof (cases k)
  case 0
  then show ?thesis by (simp add: dot_star_all)
next
  case (Suc j)
  have "dot_star (length (drop (Suc j) r)) (drop (Suc j) r) = Some (drop (Suc j) r)"
    by (rule dot_star_all)
  with Suc show ?thesis by (simp del: length_drop)
qed

lemma re_search_marker:
  "c = CHR ''='' \<or> c = CHR ''?'' \<Longrightarrow> re_search (c # r) = Some ([c], dropWhile is_digit r)"
  by (simp add: re_search_def digit_star_drop dropWhile_eq_drop)

lemma gtp_cut_response_marker:
  assumes "c = CHR ''='' \<or> c = CHR ''?''"
  shows "gtp_cut_response (c # r) = Inr (c = CHR ''='', strip (dropWhile is_digit r))"
  using assms by (auto simp: gtp_cut_response_def re_search_marker)

lemma gtp_cut_response_other:
  "c \<noteq> CHR ''='' \<Longrightarrow> c \<noteq> CHR ''?'' \<Longrightarrow> gtp_cut_response (c # r) = Inl AssertionError"
  by (simp add: gtp_cut_response_def)

lemma gtp_cut_response_empty: "gtp_cut_response [] = Inl AssertionError"
  by (simp add: gtp_cut_response_def)

text \<open>
  Claim C5, as the code has it. For every response, empty or not: when the first
  character is \<^verbatim>\<open>=\<close> the framer returns success with the payload, when it is \<^verbatim>\<open>?\<close> it
  returns failure with the payload, where the payload is what follows the marker with its
  leading run of digits removed and the whitespace at both ends stripped. A response that
  is empty or starts with any other character fails in the two \<^verbatim>\<open>assert\<close> statements,
  with \<open>AssertionError\<close>, and not with the format error \<open>GtpError\<close>.
\<close>

theorem gtp_cut_response_frames:
  "gtp_cut_response response =
     (case response of
        [] \<Rightarrow> Inl AssertionError
      | c # rest \<Rightarrow>
          if c = CHR ''='' then Inr (True, strip (dropWhile is_digit rest))
          else if c = CHR ''?'' then Inr (False, strip (dropWhile is_digit rest))
          else Inl AssertionError)"
proof (cases response)
  case Nil
  then show ?thesis by (simp add: gtp_cut_response_empty)
next
  case (Cons c rest)
  then show ?thesis
    by (simp add: gtp_cut_response_marker gtp_cut_response_other)
qed

text \<open>The two examples of the specification, \<^verbatim>\<open>"=123 foo"\<close> and \<^verbatim>\<open>"?77 bad"\<close>.\<close>

theorem gtp_cut_response_frames_witness:
  "gtp_cut_response ''=123 foo'' = Inr (True, ''foo'')
   \<and> gtp_cut_response ''?77 bad'' = Inr (False, ''bad'')"
  using gtp_cut_response_frames [of "''=123 foo''"] gtp_cut_response_frames [of "''?77 bad''"]
  by (simp add: strip_def is_digit_def isspace_def)

text \<open>
  Claim C5 as stated fails in its last part: \<^verbatim>\<open>"foo"\<close> starts with neither marker and
  the framer leaves with \<open>AssertionError\<close>, which is not the format error.
\<close>

theorem gtp_cut_response_no_format_error:
  "gtp_cut_response ''foo'' = Inl AssertionError
   \<and> gtp_cut_response ''foo'' \<noteq> Inl (GtpError ''invalid format'')"
  by (simp add: gtp_cut_response_def)

text \<open>
  Claim C10. For every response whose first character is \<^verbatim>\<open>=\<close> or \<^verbatim>\<open>?\<close>, the search
  for the pattern succeeds, so the branch that raises \<open>GtpError\<close> is not taken and the
  framer returns a pair of a truth value and a string.
\<close>

theorem gtp_cut_response_total_on_marker:
  assumes "response \<noteq> []" and "hd response = CHR ''='' \<or> hd response = CHR ''?''"
  shows "re_search response \<noteq> None
    \<and> (\<exists>success payload. gtp_cut_response response = Inr (success, payload))"
proof -
  from assms obtain c r where resp: "response = c # r" and c: "c = CHR ''='' \<or> c = CHR ''?''"
    by (cases response) auto
  from c have "re_search (c # r) \<noteq> None"
    by (simp add: re_search_marker)
  moreover from c have "gtp_cut_response (c # r) = Inr (c = CHR ''='', strip (dropWhile is_digit r))"
    by (rule gtp_cut_response_marker)
  ultimately show ?thesis using resp by simp
qed

theorem gtp_cut_response_total_on_marker_witness:
  "''?77 bad'' \<noteq> [] \<and> (hd ''?77 bad'' = CHR ''='' \<or> hd ''?77 bad'' = CHR ''?'')
   \<and> re_search ''?77 bad'' \<noteq> None
   \<and> (\<exists>success payload. gtp_cut_response ''?77 bad'' = Inr (success, payload))"
  using gtp_cut_response_total_on_marker [of "''?77 bad''"] by simp

section \<open>Properties of the move resolver\<close>

lemmas grid_defs = grid_ext_def grid_play_def grid_move_from_vertex_def grid_format_vertex_def
  lower_def lower_char_def str_int_def

subsection \<open>The deflection walk\<close>

lemma randomize_move_unrolled:
  "randomize_move eps rnd (row, col) =
     (if rnd \<le> 0 + eps then (row + 1, col)
      else if rnd \<le> 0 + eps + eps then (row, col + 1)
      else if rnd \<le> 0 + eps + eps + eps then (row - 1, col)
      else if rnd \<le> 0 + eps + eps + eps + eps then (row, col - 1)
      else (row, col))"
  by (simp add: randomize_move_def Let_def)

text \<open>
  Claim C4. For every point, every epsilon and every draw, the walk adds epsilon to the
  running sum once per direction, in the order north \<open>(row + 1, col)\<close>, east
  \<open>(row, col + 1)\<close>, south \<open>(row - 1, col)\<close>, west \<open>(row, col - 1)\<close>, and returns
  the first neighbour at which the draw is at most the sum, and the point itself when the
  draw is above all four sums. Nothing is normalised: for a draw below 1, once a sum has
  reached 1 the walk has stopped, so the directions after it, and the point itself once the
  fourth sum has reached 1, are never returned. The statement holds for any type with
  \<open>0\<close>, \<open>1\<close>, \<open>+\<close> and a preorder, whatever the addition does.
\<close>

theorem randomize_move_walk:
  fixes eps rnd :: "'a::{zero,one,plus,preorder}"
  shows
    "(let s1 = 0 + eps; s2 = s1 + eps; s3 = s2 + eps; s4 = s3 + eps;
          landed = randomize_move eps rnd (row, col)
      in landed =
           (if rnd \<le> s1 then (row + 1, col)
            else if rnd \<le> s2 then (row, col + 1)
            else if rnd \<le> s3 then (row - 1, col)
            else if rnd \<le> s4 then (row, col - 1)
            else (row, col))
         \<and> (rnd < 1 \<and> 1 \<le> s1 \<longrightarrow> landed = (row + 1, col))
         \<and> (rnd < 1 \<and> 1 \<le> s2 \<longrightarrow> landed \<in> {(row + 1, col), (row, col + 1)})
         \<and> (rnd < 1 \<and> 1 \<le> s3 \<longrightarrow>
              landed \<in> {(row + 1, col), (row, col + 1), (row - 1, col)})
         \<and> (rnd < 1 \<and> 1 \<le> s4 \<longrightarrow> landed \<noteq> (row, col)))"
proof -
  have le: "rnd \<le> s" if "rnd < 1" and "1 \<le> s" for s
    using that by (meson less_le_not_le order_trans)
  show ?thesis
    unfolding Let_def randomize_move_unrolled
    by (auto dest: le)
qed

text \<open>
  With epsilon 1 every sum has reached 1 and a draw of one half stops at north; with
  epsilon one half and a draw of three quarters the walk stops at east, at the sum 1.
\<close>

theorem randomize_move_walk_witness:
  "(1 / 2 :: real) < 1 \<and> (1 :: real) \<le> 0 + 1
   \<and> randomize_move (1 :: real) (1 / 2) (3, 3) = (4, 3)
   \<and> (3 / 4 :: real) < 1 \<and> (1 :: real) \<le> 0 + 1 / 2 + 1 / 2
   \<and> randomize_move (1 / 2 :: real) (3 / 4) (3, 3) = (3, 4)"
  using randomize_move_walk [where eps = "1 :: real" and rnd = "1 / 2" and row = 3 and col = 3]
    randomize_move_walk [where eps = "1 / 2 :: real" and rnd = "3 / 4" and row = 3 and col = 3]
  by (simp add: Let_def)

subsection \<open>Resolution with epsilon 0\<close>

lemma response2move_vertex:
  assumes "lower response \<noteq> ''pass''"
    and "move_from_vertex x response (side x bd) = Inr mv"
  shows "response2move x args bd ko c rnd response =
     (if \<not> allow_invalid args \<and> \<not> is_move_valid x bd ko mv c then Inr (False, Skip)
      else if \<not> is_move_valid x bd ko (randomize_move (epsilon args) rnd mv) c
        then Inr (False, Skip)
      else Inr (mv = randomize_move (epsilon args) rnd mv,
                Pt (randomize_move (epsilon args) rnd mv)))"
  using assms by (simp add: response2move_def Let_def)

text \<open>
  Claim C3 as stated fails at the draw 0, a value that \<^verbatim>\<open>random.random()\<close> can
  return: with epsilon 0 the first sum is 0 and \<^verbatim>\<open>rnd <= pr_sum\<close> holds, so the walk
  stops at north. On the empty board of side 5 the proposal \<^verbatim>\<open>C3\<close>, the point
  \<open>(2, 2)\<close>, is legal, and the resolver commits \<open>(3, 2)\<close> and reports a mismatch.
\<close>

theorem epsilon_zero_deflects_at_draw_zero:
  "epsilon args0 = 0
   \<and> move_from_vertex (grid_ext (\<lambda>_. 0)) ''C3'' 5 = Inr (2, 2)
   \<and> is_move_valid (grid_ext (\<lambda>_. 0)) empty5 None (2, 2) ''B''
   \<and> response2move (grid_ext (\<lambda>_. 0)) args0 empty5 None ''B'' 0 ''C3''
       = Inr (False, Pt (3, 2))"
  by (simp add: response2move_def is_move_valid_def randomize_move_def args0_def empty5_def
      grid_defs)

text \<open>
  Claim C3, amended. With epsilon 0, for every legal coordinate proposal and every draw
  above 0 the resolver does not deflect: it returns the proposed point and reports a
  match. At the draw 0 it moves the proposal one row north, and commits that point if it
  is legal and skips otherwise.
\<close>

theorem epsilon_zero_resolution:
  fixes x :: "('b, real) ext"
  assumes "epsilon args = 0"
    and "lower response \<noteq> ''pass''"
    and "move_from_vertex x response (side x bd) = Inr mv"
    and "is_move_valid x bd ko mv c"
  shows "(0 < rnd \<longrightarrow> response2move x args bd ko c rnd response = Inr (True, Pt mv))
    \<and> (rnd = 0 \<longrightarrow> response2move x args bd ko c rnd response =
          (if is_move_valid x bd ko (fst mv + 1, snd mv) c
           then Inr (False, Pt (fst mv + 1, snd mv)) else Inr (False, Skip)))"
proof -
  obtain row col where mv: "mv = (row, col)" by (cases mv)
  have pos: "randomize_move (0 :: real) rnd mv = mv" if "0 < rnd"
    using that by (simp add: mv randomize_move_unrolled)
  have zero: "randomize_move (0 :: real) 0 mv = (row + 1, col)"
    by (simp add: mv randomize_move_unrolled)
  show ?thesis
    using assms pos zero by (auto simp: response2move_vertex mv)
qed

theorem epsilon_zero_resolution_witness:
  "epsilon args0 = 0 \<and> lower ''C3'' \<noteq> ''pass''
   \<and> move_from_vertex (grid_ext (\<lambda>_. 1 / 2)) ''C3''
        (side (grid_ext (\<lambda>_. 1 / 2)) empty5) = Inr (2, 2)
   \<and> is_move_valid (grid_ext (\<lambda>_. 1 / 2)) empty5 None (2, 2) ''B''
   \<and> (0 :: real) < 1 / 2
   \<and> response2move (grid_ext (\<lambda>_. 1 / 2)) args0 empty5 None ''B'' (1 / 2) ''C3''
       = Inr (True, Pt (2, 2))"
proof -
  let ?x = "grid_ext (\<lambda>_. 1 / 2)"
  have h1: "epsilon args0 = 0" by (simp add: args0_def)
  have h2: "lower ''C3'' \<noteq> ''pass''" by (simp add: lower_def lower_char_def)
  have h3: "move_from_vertex ?x ''C3'' (side ?x empty5) = Inr (2, 2)"
    by (simp add: empty5_def grid_defs)
  have h4: "is_move_valid ?x empty5 None (2, 2) ''B''"
    by (simp add: is_move_valid_def empty5_def grid_defs)
  from epsilon_zero_resolution [OF h1 h2 h3 h4, of "1 / 2"] h1 h2 h3 h4
  show ?thesis by simp
qed

subsection \<open>Proposals and the ko point\<close>

text \<open>
  Claim C7. A point is legal exactly when it is not the ko point and the board accepts
  a stone there (the board refuses a point off the grid and a point that is not empty).
  A proposal equal to the ko point resolves to \<open>skip\<close> when illegal proposals are not
  tolerated, whatever epsilon and the draw are. When they are tolerated it is deflected
  first: the deflected point is committed if it differs from the proposal and is legal,
  and the outcome is \<open>skip\<close> otherwise. A legal proposal that the deflection lands on the
  ko point resolves to \<open>skip\<close> as well.
\<close>

theorem ko_point_resolution:
  assumes "lower response \<noteq> ''pass''"
    and "move_from_vertex x response (side x bd) = Inr mv"
  shows "(is_move_valid x bd ko pt c \<longleftrightarrow>
            Some pt \<noteq> ko \<and> (\<exists>r. play x bd (fst pt) (snd pt) (lower c) = Inr r))
    \<and> (ko = Some mv \<and> \<not> allow_invalid args \<longrightarrow>
          response2move x args bd ko c rnd response = Inr (False, Skip))
    \<and> (ko = Some mv \<and> allow_invalid args \<longrightarrow>
          response2move x args bd ko c rnd response =
            (let landed = randomize_move (epsilon args) rnd mv in
             if landed \<noteq> mv \<and> is_move_valid x bd ko landed c then Inr (False, Pt landed)
             else Inr (False, Skip)))
    \<and> (is_move_valid x bd ko mv c \<and> Some (randomize_move (epsilon args) rnd mv) = ko \<longrightarrow>
          response2move x args bd ko c rnd response = Inr (False, Skip))"
proof -
  have legal: "is_move_valid x bd ko pt c \<longleftrightarrow>
      Some pt \<noteq> ko \<and> (\<exists>r. play x bd (fst pt) (snd pt) (lower c) = Inr r)"
    by (cases pt) (auto simp: is_move_valid_def split: sum.splits)
  have at_ko: "\<not> is_move_valid x bd (Some q) q c" for q
    by (simp add: is_move_valid_def)
  have strict: "response2move x args bd ko c rnd response = Inr (False, Skip)"
    if "ko = Some mv" and "\<not> allow_invalid args"
    using that assms at_ko by (simp add: response2move_vertex)
  have tolerant: "response2move x args bd ko c rnd response =
      (let landed = randomize_move (epsilon args) rnd mv in
       if landed \<noteq> mv \<and> is_move_valid x bd ko landed c then Inr (False, Pt landed)
       else Inr (False, Skip))"
    if "ko = Some mv" and "allow_invalid args"
    using that assms at_ko by (auto simp: response2move_vertex Let_def)
  have onto_ko: "response2move x args bd ko c rnd response = Inr (False, Skip)"
    if "is_move_valid x bd ko mv c" and "Some (randomize_move (epsilon args) rnd mv) = ko"
    using that assms at_ko [of "randomize_move (epsilon args) rnd mv"]
    by (auto simp: response2move_vertex)
  from legal strict tolerant onto_ko show ?thesis by blast
qed

text \<open>
  On the empty board of side 5 with the ko point at \<open>(2, 2)\<close>, the vertex \<^verbatim>\<open>C3\<close>:
  the proposal \<^verbatim>\<open>C3\<close> is skipped when illegal proposals are not tolerated; when they
  are, epsilon one half and the draw one quarter take it north to the legal point
  \<open>(3, 2)\<close>, which is committed; and the same draw takes the legal proposal \<^verbatim>\<open>C2\<close>
  onto the ko point, which is skipped. The ko point itself, the point \<open>(5, 2)\<close> off
  the board and an occupied point are not legal.
\<close>

theorem ko_point_resolution_witness:
  "lower ''C3'' \<noteq> ''pass'' \<and> lower ''C2'' \<noteq> ''pass''
   \<and> move_from_vertex (grid_ext (\<lambda>_. 0)) ''C3'' (side (grid_ext (\<lambda>_. 0)) empty5) = Inr (2, 2)
   \<and> move_from_vertex (grid_ext (\<lambda>_. 0)) ''C2'' (side (grid_ext (\<lambda>_. 0)) empty5) = Inr (1, 2)
   \<and> \<not> allow_invalid args0
   \<and> response2move (grid_ext (\<lambda>_. 0)) args0 empty5 (Some (2, 2)) ''B'' (1 / 4) ''C3''
       = Inr (False, Skip)
   \<and> allow_invalid (args0\<lparr>epsilon := 1 / 2, allow_invalid := True\<rparr>)
   \<and> response2move (grid_ext (\<lambda>_. 0)) (args0\<lparr>epsilon := 1 / 2, allow_invalid := True\<rparr>)
        empty5 (Some (2, 2)) ''B'' (1 / 4) ''C3'' = Inr (False, Pt (3, 2))
   \<and> is_move_valid (grid_ext (\<lambda>_. 0)) empty5 (Some (2, 2)) (1, 2) ''B''
   \<and> \<not> is_move_valid (grid_ext (\<lambda>_. 0)) empty5 (Some (2, 2)) (2, 2) ''B''
   \<and> \<not> is_move_valid (grid_ext (\<lambda>_. 0)) empty5 (Some (2, 2)) (5, 2) ''B''
   \<and> \<not> is_move_valid (grid_ext (\<lambda>_. 0)) (empty5\<lparr>stones := [((1, 2), ''w'')]\<rparr>)
         (Some (2, 2)) (1, 2) ''B''
   \<and> Some (randomize_move (epsilon (args0\<lparr>epsilon := 1 / 2\<rparr>)) (1 / 4) (1, 2)) = Some (2, 2)
   \<and> response2move (grid_ext (\<lambda>_. 0)) (args0\<lparr>epsilon := 1 / 2\<rparr>)
        empty5 (Some (2, 2)) ''B'' (1 / 4) ''C2'' = Inr (False, Skip)"
proof -
  let ?x = "grid_ext (\<lambda>_. 0)"
  have p3: "lower ''C3'' \<noteq> ''pass''" and p2: "lower ''C2'' \<noteq> ''pass''"
    by (simp_all add: lower_def lower_char_def)
  have v3: "move_from_vertex ?x ''C3'' (side ?x empty5) = Inr (2, 2)"
    and v2: "move_from_vertex ?x ''C2'' (side ?x empty5) = Inr (1, 2)"
    by (simp_all add: empty5_def grid_defs)
  have north3: "randomize_move (1 / 2 :: real) (1 / 4) (2, 2) = (3, 2)"
    and north2: "randomize_move (1 / 2 :: real) (1 / 4) (1, 2) = (2, 2)"
    by (simp_all add: randomize_move_unrolled)
  have legal32: "is_move_valid ?x empty5 (Some (2, 2)) (3, 2) ''B''"
    and legal12: "is_move_valid ?x empty5 (Some (2, 2)) (1, 2) ''B''"
    by (simp_all add: is_move_valid_def empty5_def grid_defs)
  have strict: "\<not> allow_invalid args0" by (simp add: args0_def)
  note a = ko_point_resolution [OF p3 v3, where ko = "Some (2, 2)" and c = "''B''"
      and rnd = "1 / 4" and args = args0]
  note b = ko_point_resolution [OF p3 v3, where ko = "Some (2, 2)" and c = "''B''"
      and rnd = "1 / 4" and args = "args0\<lparr>epsilon := 1 / 2, allow_invalid := True\<rparr>"]
  note c = ko_point_resolution [OF p2 v2, where ko = "Some (2, 2)" and c = "''B''"
      and rnd = "1 / 4" and args = "args0\<lparr>epsilon := 1 / 2\<rparr>"]
  from a strict have ra: "response2move ?x args0 empty5 (Some (2, 2)) ''B'' (1 / 4) ''C3''
      = Inr (False, Skip)"
    by simp
  from b north3 legal32
  have rb: "response2move ?x (args0\<lparr>epsilon := 1 / 2, allow_invalid := True\<rparr>)
      empty5 (Some (2, 2)) ''B'' (1 / 4) ''C3'' = Inr (False, Pt (3, 2))"
    by (simp add: Let_def)
  from c north2 legal12
  have rc: "response2move ?x (args0\<lparr>epsilon := 1 / 2\<rparr>)
      empty5 (Some (2, 2)) ''B'' (1 / 4) ''C2'' = Inr (False, Skip)"
    by simp
  from a have at_ko: "\<not> is_move_valid ?x empty5 (Some (2, 2)) (2, 2) ''B''"
    and off: "\<not> is_move_valid ?x empty5 (Some (2, 2)) (5, 2) ''B''"
    and taken: "\<not> is_move_valid ?x (empty5\<lparr>stones := [((1, 2), ''w'')]\<rparr>)
      (Some (2, 2)) (1, 2) ''B''"
    by (simp_all add: is_move_valid_def empty5_def grid_defs)
  from p3 p2 v3 v2 strict ra rb legal12 at_ko off taken north2 rc show ?thesis by simp
qed

section \<open>Where a read stops\<close>

lemmas run_defs = main_def startup_def GtpBot_init_def interact_def read_def raw_read_def
  bot_write_def gtp_cut_response_marker gtp_cut_response_empty strip_def is_digit_def
  isspace_def ascii_def args0_def grid_defs str_nat.simps game_loop.simps turn_def response2move_def apply_move_def
  next_turn_def format_move_def reply_def script_def channel_def empty5_def
  is_move_valid_def randomize_move_def

lemma raw_read_loop_stop:
  assumes "list_all ascii ls" and "ascii t" and "reads_on prev ls"
    and "t = [] \<or> t = [CHR 0x0A] \<and> last (last (prev # ls)) = CHR 0x0A"
  shows "raw_read_loop acc prev (ls @ t # rest) = (Inr (acc @ ls @ [t]), rest)"
  using assms
proof (induction ls arbitrary: acc prev)
  case Nil
  then show ?case by auto
next
  case (Cons l ls)
  from Cons.prems have "raw_read_loop (acc @ [l]) l (ls @ t # rest) = (Inr ((acc @ [l]) @ ls @ [t]), rest)"
    by (intro Cons.IH) (auto split: if_splits)
  with Cons.prems show ?case by auto
qed

lemma raw_read_loop_closed:
  assumes "list_all ascii ls" and "reads_on prev ls"
  shows "raw_read_loop acc prev ls = (Inr (acc @ ls @ [[]]), [])"
  using assms
proof (induction ls arbitrary: acc prev)
  case Nil
  then show ?case by simp
next
  case (Cons l ls)
  from Cons.prems have "raw_read_loop (acc @ [l]) l ls = (Inr ((acc @ [l]) @ ls @ [[]]), [])"
    by (intro Cons.IH) auto
  with Cons.prems show ?case by auto
qed

text \<open>
  Claim C8, amended. For lines of ASCII text: the read stops at the first line that is
  empty, which is the closed stream, or that is a blank line whose predecessor ends with
  a newline, and it returns the concatenation of every line read, the stopping line
  included, leaving the lines after it pending. The predecessor of the first line read is
  the text \<^verbatim>\<open>######\<close>, so a blank first line does not stop the read; any later blank
  line does, whatever the line before it holds, since every line that is not the last of
  the stream ends with a newline. When no line stops the read it returns all lines, at the
  end of the stream.
\<close>

theorem raw_read_stops:
  assumes "list_all ascii ls" and "reads_on ''######'' ls"
  shows "(stdout (p self) = ls @ t # rest \<and> ascii t
          \<and> (t = [] \<or> t = [CHR 0x0A] \<and> last (last (''######'' # ls)) = CHR 0x0A) \<longrightarrow>
            raw_read self = (Inr (concat ls @ t), self\<lparr>p := (p self)\<lparr>stdout := rest\<rparr>\<rparr>))
    \<and> (stdout (p self) = ls \<longrightarrow>
            raw_read self = (Inr (concat ls), self\<lparr>p := (p self)\<lparr>stdout := []\<rparr>\<rparr>))"
  using assms
  by (auto simp: raw_read_def raw_read_loop_stop [where acc = "[]", simplified]
      raw_read_loop_closed [where acc = "[]", simplified])

theorem raw_read_stops_witness:
  "list_all ascii [''=1 ok'' @ [CHR 0x0A]] \<and> reads_on ''######'' [''=1 ok'' @ [CHR 0x0A]]
   \<and> raw_read (engine [''=1 ok'' @ [CHR 0x0A], [CHR 0x0A], ''= next'' @ [CHR 0x0A]])
       = (Inr (''=1 ok'' @ [CHR 0x0A, CHR 0x0A]), engine [''= next'' @ [CHR 0x0A]])
   \<and> raw_read (engine [''=1 ok'' @ [CHR 0x0A]]) = (Inr (''=1 ok'' @ [CHR 0x0A]), engine [])"
proof -
  let ?l = "''=1 ok'' @ [CHR 0x0A]"
  have h1: "list_all ascii [?l]" by (simp add: ascii_def)
  have h2: "reads_on ''######'' [?l]" by simp
  from raw_read_stops [OF h1 h2, of "engine [?l, [CHR 0x0A], ''= next'' @ [CHR 0x0A]]"
      "[CHR 0x0A]" "[''= next'' @ [CHR 0x0A]]"]
    raw_read_stops [OF h1 h2, of "engine [?l]"] h1 h2
  show ?thesis by (simp add: engine_def ascii_def)
qed

text \<open>
  Claim C8 as stated fails: a blank line is taken as the terminator although no non-blank
  line precedes it. An engine that emits two blank lines before its response has the read
  return after the second one, with the two newlines as the response and the real
  response still pending.
\<close>

theorem raw_read_blank_after_blank:
  "raw_read (engine [[CHR 0x0A], [CHR 0x0A], ''= ok'' @ [CHR 0x0A], [CHR 0x0A]])
     = (Inr [CHR 0x0A, CHR 0x0A], engine [''= ok'' @ [CHR 0x0A], [CHR 0x0A]])"
  by (simp add: raw_read_def engine_def ascii_def)

section \<open>The double pass\<close>

lemma turn_flags:
  assumes "turn x args s = (Inr (m, stop), s')"
  shows "has_passed (player s') = (m = Pass)
    \<and> has_passed (opponent s') = has_passed (opponent s)
    \<and> (stop \<longleftrightarrow> m = Pass \<and> has_passed (opponent s))
    \<and> color (player s') = color (player s)
    \<and> color (opponent s') = color (opponent s)"
  using assms
proof (rule turn_InrE)
  fix response pl1 hw s1 r2 pl2 r3 op2
  assume rd: "read (bot_write (''frisbee-reg_genmove '' @ color (player s)) (player s))
      = (Inr (True, response), pl1)"
    and ap: "apply_move x m (s\<lparr>player := pl1\<lparr>has_passed := (m = Pass)\<rparr>\<rparr>) = Inr s1"
    and i1: "interact (''frisbee-play '' @ color (player s1) @ '' '' @ format_move x m)
        (player s1) = (Inr r2, pl2)"
    and i2: "interact (''frisbee-play '' @ color (player s1) @ '' '' @ format_move x m)
        (opponent s1) = (Inr r3, op2)"
    and s': "s' = s1\<lparr>player := pl2, opponent := op2\<rparr>"
    and stop: "stop = (has_passed pl2 \<and> has_passed op2)"
  from apply_move_frame [OF ap]
  have s1: "player s1 = pl1\<lparr>has_passed := (m = Pass)\<rparr>" "opponent s1 = opponent s"
    by simp_all
  from read_frame(1) [OF rd] have c1: "color pl1 = color (player s)" by simp
  from interact_frame(1,2) [OF i1] s1 c1
  have pl2: "color pl2 = color (player s)" "has_passed pl2 = (m = Pass)" by simp_all
  from interact_frame(1,2) [OF i2] s1
  have op2: "color op2 = color (opponent s)" "has_passed op2 = has_passed (opponent s)"
    by simp_all
  from pl2 op2 stop show ?thesis by (simp add: s')
qed

lemma interact_fields:
  assumes "interact cmd self = (r, self')"
  shows "color self' = color self \<and> has_passed self' = has_passed self"
  using interact_frame(1,2) [OF assms] by simp

lemma GtpBot_init_fields:
  assumes "GtpBot_init q c = (r, self)"
  shows "color self = c \<and> \<not> has_passed self"
  using assms
  by (auto simp: GtpBot_init_def Let_def split: prod.splits sum.splits if_splits
      dest!: interact_fields)

lemma startup_flags:
  assumes "startup x args pb pw = Inr s0"
  shows "\<not> has_passed (player s0) \<and> \<not> has_passed (opponent s0)
    \<and> color (player s0) = ''B'' \<and> color (opponent s0) = ''W''"
  using assms
  by (auto simp: startup_def split: prod.splits sum.splits option.splits
      dest!: interact_fields GtpBot_init_fields)

lemma game_loop_break:
  "game_loop x args s = (None, s') \<Longrightarrow> has_passed (player s') \<and> has_passed (opponent s')"
proof (induction x args s rule: game_loop.induct)
  case (1 x args s)
  show ?case
  proof (cases "turn x args s")
    case (Pair r s1)
    show ?thesis
    proof (cases r)
      case (Inl e)
      with Pair "1.prems" show ?thesis by (simp add: game_loop.simps [of x args s])
    next
      case (Inr v)
      obtain m stop where v: "v = (m, stop)" by (cases v)
      show ?thesis
      proof (cases stop)
        case True
        with Pair Inr v "1.prems" have "s' = s1" by (simp add: game_loop.simps [of x args s])
        moreover from Pair Inr v True have "turn x args s = (Inr (m, True), s1)" by simp
        from turn_flags [OF this] have "has_passed (player s1) \<and> has_passed (opponent s1)"
          by simp
        ultimately show ?thesis by simp
      next
        case False
        with Pair Inr v "1.prems" have "game_loop x args (next_turn s1) = (None, s')"
          by (simp add: game_loop.simps [of x args s])
        with "1.IH" Pair Inr v False show ?thesis by simp
      qed
    qed
  qed
qed

text \<open>
  Claim C6. A turn that reaches the test sets the mover's flag to whether the committed
  move is \<open>pass\<close>, so \<open>skip\<close> and a point set it to false, and the loop breaks
  exactly when that move is \<open>pass\<close> and the opponent's flag is set. After a turn that
  did not break, the next turn breaks exactly when its move and the move before it are both
  \<open>pass\<close>. The first turn never breaks, since both flags start as false. When the loop
  has ended without an exception, both flags are set.
\<close>

theorem double_pass_ends_game:
  "(turn x args s = (Inr (m, stop), s') \<longrightarrow>
      has_passed (player s') = (m = Pass) \<and> (stop \<longleftrightarrow> m = Pass \<and> has_passed (opponent s)))
   \<and> (turn x args s = (Inr (m1, False), s1) \<and> turn x args (next_turn s1) = (Inr (m2, stop2), s2)
        \<longrightarrow> (stop2 \<longleftrightarrow> m1 = Pass \<and> m2 = Pass))
   \<and> (startup x args pb pw = Inr s \<and> turn x args s = (Inr (m, stop), s') \<longrightarrow> \<not> stop)
   \<and> (game_loop x args s = (None, s') \<longrightarrow> has_passed (player s') \<and> has_passed (opponent s'))"
proof -
  have one: "has_passed (player s') = (m = Pass) \<and> (stop \<longleftrightarrow> m = Pass \<and> has_passed (opponent s))"
    if "turn x args s = (Inr (m, stop), s')"
    using turn_flags [OF that] by simp
  have two: "stop2 \<longleftrightarrow> m1 = Pass \<and> m2 = Pass"
    if t1: "turn x args s = (Inr (m1, False), s1)"
      and t2: "turn x args (next_turn s1) = (Inr (m2, stop2), s2)"
  proof -
    from turn_flags [OF t1] have "has_passed (player s1) = (m1 = Pass)" by simp
    then have "has_passed (opponent (next_turn s1)) = (m1 = Pass)" by (simp add: next_turn_def)
    with turn_flags [OF t2] show ?thesis by auto
  qed
  have first: "\<not> stop"
    if "startup x args pb pw = Inr s" and "turn x args s = (Inr (m, stop), s')"
    using startup_flags [OF that(1)] turn_flags [OF that(2)] by simp
  from one two first game_loop_break [of x args s s'] show ?thesis by blast
qed

text \<open>The two passing engines: black passes, the loop goes on, white passes, the loop ends.\<close>

theorem double_pass_ends_game_witness:
  "startup (grid_ext (\<lambda>_. 0)) args0 passing_black passing_white = Inr pass_start
   \<and> fst (turn (grid_ext (\<lambda>_. 0)) args0 pass_start) = Inr (Pass, False)
   \<and> fst (turn (grid_ext (\<lambda>_. 0)) args0
        (next_turn (snd (turn (grid_ext (\<lambda>_. 0)) args0 pass_start)))) = Inr (Pass, True)
   \<and> has_passed (player (snd (turn (grid_ext (\<lambda>_. 0)) args0 pass_start)))
   \<and> fst (game_loop (grid_ext (\<lambda>_. 0)) args0 pass_start) = None
   \<and> has_passed (player (snd (game_loop (grid_ext (\<lambda>_. 0)) args0 pass_start)))
   \<and> has_passed (opponent (snd (game_loop (grid_ext (\<lambda>_. 0)) args0 pass_start)))"
proof -
  let ?x = "grid_ext (\<lambda>_. 0)"
  let ?s1 = "snd (turn ?x args0 pass_start)"
  let ?s2 = "snd (turn ?x args0 (next_turn ?s1))"
  let ?s3 = "snd (game_loop ?x args0 pass_start)"
  have st: "startup ?x args0 passing_black passing_white = Inr pass_start"
    by (simp add: run_defs passing_black_def passing_white_def pass_start_def)
  have t1: "fst (turn ?x args0 pass_start) = Inr (Pass, False)"
    by (simp add: run_defs pass_start_def)
  have t2: "fst (turn ?x args0 (next_turn ?s1)) = Inr (Pass, True)"
    by (simp add: run_defs pass_start_def)
  have g: "fst (game_loop ?x args0 pass_start) = None"
    by (simp add: run_defs pass_start_def)
  from t1 have t1': "turn ?x args0 pass_start = (Inr (Pass, False), ?s1)"
    by (simp add: prod_eq_iff)
  from t2 have t2': "turn ?x args0 (next_turn ?s1) = (Inr (Pass, True), ?s2)"
    by (simp add: prod_eq_iff)
  from g have g': "game_loop ?x args0 pass_start = (None, ?s3)"
    by (simp add: prod_eq_iff)
  note a = double_pass_ends_game [where x = ?x and args = args0 and s = pass_start
      and m = Pass and stop = False and s' = ?s1 and ?m1.0 = Pass and ?s1.0 = ?s1
      and ?m2.0 = Pass and ?stop2.0 = True and ?s2.0 = ?s2
      and pb = passing_black and pw = passing_white]
  note c = double_pass_ends_game [where x = ?x and args = args0 and s = pass_start
      and s' = ?s3]
  from a t1' have "has_passed (player ?s1)" by simp
  moreover from c g' have "has_passed (player ?s3) \<and> has_passed (opponent ?s3)" by blast
  ultimately show ?thesis using st t1 t2 g by simp
qed

section \<open>What the referee sends\<close>

text \<open>
  A turn writes a \<^verbatim>\<open>frisbee-reg_genmove\<close> line and \<^verbatim>\<open>frisbee-play\<close> lines and
  nothing else, however it ends, and it leaves the colours of the two channels as they
  are. \<open>game_loop_invariant\<close> carries a property of the variables that every turn and
  the exchange of the roles keep through the whole loop, to each of its exits.
\<close>

lemma read_fields:
  assumes "read self = (r, self')"
  shows "color self' = color self \<and> has_passed self' = has_passed self
    \<and> stdin (p self') = stdin (p self)"
  using read_frame(1,2,3) [OF assms] by simp

lemma interact_sent:
  assumes "interact cmd self = (r, self')"
  shows "color self' = color self \<and> stdin (p self') = stdin (p self) @ [cmd @ [CHR 0x0A]]"
  using interact_frame(1,3) [OF assms] by simp

lemma apply_move_fields:
  assumes "apply_move x m s = Inr s'"
  shows "player s' = player s \<and> opponent s' = opponent s"
  using apply_move_frame(1,2) [OF assms] by simp

lemma turn_sent:
  assumes "turn x args s = (r, s')"
    and "\<And>t. P (''frisbee-reg_genmove '' @ t)" and "\<And>t. P (''frisbee-play '' @ t)"
    and "all_sent P (player s)" and "all_sent P (opponent s)"
  shows "all_sent P (player s') \<and> all_sent P (opponent s')"
  using assms
  by (auto simp: turn_def Let_def all_sent_def split: prod.splits sum.splits if_splits
      dest!: read_fields interact_sent apply_move_fields)

lemma turn_colors:
  assumes "turn x args s = (r, s')"
  shows "color (player s') = color (player s) \<and> color (opponent s') = color (opponent s)"
  using assms
  by (auto simp: turn_def Let_def split: prod.splits sum.splits if_splits
      dest!: read_fields interact_sent apply_move_fields)

lemma game_loop_invariant:
  assumes "\<And>s r s'. I s \<Longrightarrow> turn x args s = (r, s') \<Longrightarrow> I s'"
    and "\<And>s. I s \<Longrightarrow> I (next_turn s)"
    and "I s" and "game_loop x args s = (r, s')"
  shows "I s'"
  using assms
proof (induction x args s rule: game_loop.induct)
  case (1 x args s)
  note step = "1.prems"(1) and swap = "1.prems"(2)
  obtain r1 s1 where t: "turn x args s = (r1, s1)" by (cases "turn x args s")
  with "1.prems"(3) have I1: "I s1" by (rule step)
  show ?case
  proof (cases r1)
    case (Inl e)
    with t "1.prems"(4) I1 show ?thesis by (simp add: game_loop.simps [of x args s])
  next
    case (Inr v)
    obtain m stop where v: "v = (m, stop)" by (cases v)
    show ?thesis
    proof (cases stop)
      case True
      with t Inr v "1.prems"(4) I1 show ?thesis by (simp add: game_loop.simps [of x args s])
    next
      case False
      with t Inr v "1.prems"(4) have run: "game_loop x args (next_turn s1) = (r, s')"
        by (simp add: game_loop.simps [of x args s])
      from I1 have "I (next_turn s1)" by (rule swap)
      with "1.IH" [OF t [symmetric] Inr v [symmetric] False step swap] run show ?thesis by simp
    qed
  qed
qed

section \<open>Responses that report failure\<close>

lemma ascii_marker: "framed c t \<Longrightarrow> ascii (c # t @ [CHR 0x0A])"
  by (auto simp: framed_def ascii_def)

lemma read_framed:
  assumes "framed c t" and "stdout (p self) = response_lines c t @ rest"
  shows "read self =
    (Inr (c = CHR ''='', strip (dropWhile is_digit (t @ [CHR 0x0A, CHR 0x0A]))),
     self\<lparr>p := (p self)\<lparr>stdout := rest\<rparr>\<rparr>)"
proof -
  from assms(1) have a: "ascii (c # t @ [CHR 0x0A])" by (rule ascii_marker)
  have b: "ascii [CHR 0x0A]" by (simp add: ascii_def)
  from assms(1) have m: "c = CHR ''='' \<or> c = CHR ''?''" by (simp add: framed_def)
  from a b assms(2)
  have "raw_read self = (Inr (c # t @ [CHR 0x0A, CHR 0x0A]), self\<lparr>p := (p self)\<lparr>stdout := rest\<rparr>\<rparr>)"
    by (simp add: raw_read_def response_lines_def)
  with m show ?thesis by (simp add: read_def gtp_cut_response_marker)
qed

lemma interact_framed:
  assumes "framed c t" and "stdout (p self) = response_lines c t @ rest"
  shows "interact cmd self =
    (Inr (c = CHR ''='', strip (dropWhile is_digit (t @ [CHR 0x0A, CHR 0x0A]))),
     self\<lparr>p := \<lparr>stdout = rest, stdin = stdin (p self) @ [cmd @ [CHR 0x0A]]\<rparr>\<rparr>)"
proof -
  from assms(2) have "stdout (p (bot_write cmd self)) = response_lines c t @ rest" by simp
  from read_framed [OF assms(1) this] show ?thesis
    by (simp add: interact_def bot_write_def)
qed

text \<open>
  Claim C2 as stated fails: with both engines answering every \<^verbatim>\<open>boardsize\<close>,
  \<^verbatim>\<open>komi\<close> and \<^verbatim>\<open>frisbee-play\<close> command with \<^verbatim>\<open>?\<close>, the referee plays the
  game to its double pass and returns without an exception.
\<close>

theorem rejected_commands_game_goes_on:
  "main (grid_ext (\<lambda>_. 0)) args0 rejecting_black rejecting_white =
     Finished None
       \<lparr>b = empty5,
        player = channel ''W'' ''white'' True []
          [''list_commands'', ''name'', ''boardsize 5'', ''komi 7.5'', ''frisbee-play B pass'',
           ''frisbee-reg_genmove W'', ''frisbee-play W pass'', ''quit''],
        opponent = channel ''B'' ''black'' True []
          [''list_commands'', ''name'', ''boardsize 5'', ''komi 7.5'', ''frisbee-reg_genmove B'',
           ''frisbee-play B pass'', ''frisbee-play W pass'', ''quit''],
        ko_move = None, movenum = 1\<rparr>"
  by (simp add: run_defs rejecting_black_def rejecting_white_def channel_def empty5_def)

text \<open>
  Claim C2, amended. The values that \<^verbatim>\<open>interact\<close> returns for \<^verbatim>\<open>boardsize\<close>,
  \<^verbatim>\<open>komi\<close> and \<^verbatim>\<open>frisbee-play\<close> are dropped, so a framed response to one of
  these commands lets the referee go on whatever its marker is. After the two handshakes,
  framed responses to the two \<^verbatim>\<open>boardsize\<close> and the two \<^verbatim>\<open>komi\<close> commands
  (markers \<open>c1\<close> to \<open>c4\<close>) lead to the start of the loop, if the board can be made.
  In a turn whose proposal was read and resolved and whose move the board took, framed
  responses to the two \<^verbatim>\<open>frisbee-play\<close> commands (markers \<open>c5\<close>, \<open>c6\<close>) lead to
  the test for the double pass. The state reached does not depend on the markers.
\<close>

theorem rejected_commands_not_fatal:
  "(GtpBot_init pb ''B'' = (None, black) \<and> GtpBot_init pw ''W'' = (None, white)
    \<and> stdout (p black) = response_lines c1 t1 @ response_lines c3 t3 @ restb
    \<and> stdout (p white) = response_lines c2 t2 @ response_lines c4 t4 @ restw
    \<and> framed c1 t1 \<and> framed c2 t2 \<and> framed c3 t3 \<and> framed c4 t4
    \<and> Board x (boardsize args) = Inr board
    \<longrightarrow> startup x args pb pw =
          Inr \<lparr>b = board,
               player = black\<lparr>p := \<lparr>stdout = restb,
                 stdin = stdin (p black) @
                   [''boardsize '' @ str_int (boardsize args) @ [CHR 0x0A],
                    ''komi '' @ format_1f x (komi args) @ [CHR 0x0A]]\<rparr>\<rparr>,
               opponent = white\<lparr>p := \<lparr>stdout = restw,
                 stdin = stdin (p white) @
                   [''boardsize '' @ str_int (boardsize args) @ [CHR 0x0A],
                    ''komi '' @ format_1f x (komi args) @ [CHR 0x0A]]\<rparr>\<rparr>,
               ko_move = None, movenum = 0\<rparr>)
   \<and> (read (bot_write (''frisbee-reg_genmove '' @ color (player s)) (player s))
        = (Inr (True, proposal), pl)
      \<and> response2move x args (b s) (ko_move s) (color pl) (random x (movenum s)) proposal
        = Inr (hw, m)
      \<and> apply_move x m (s\<lparr>player := pl\<lparr>has_passed := (m = Pass)\<rparr>\<rparr>) = Inr s1
      \<and> stdout (p pl) = response_lines c5 t5 @ rest1
      \<and> stdout (p (opponent s)) = response_lines c6 t6 @ rest2
      \<and> framed c5 t5 \<and> framed c6 t6
      \<longrightarrow> turn x args s =
          (Inr (m, m = Pass \<and> has_passed (opponent s)),
           s1\<lparr>player := pl\<lparr>has_passed := (m = Pass),
                 p := \<lparr>stdout = rest1,
                   stdin = stdin (p pl) @
                     [''frisbee-play '' @ color pl @ '' '' @ format_move x m @ [CHR 0x0A]]\<rparr>\<rparr>,
              opponent := (opponent s)\<lparr>p := \<lparr>stdout = rest2,
                   stdin = stdin (p (opponent s)) @
                     [''frisbee-play '' @ color pl @ '' '' @ format_move x m @ [CHR 0x0A]]\<rparr>\<rparr>\<rparr>))"
proof -
  let ?bs = "''boardsize '' @ str_int (boardsize args)"
  let ?km = "''komi '' @ format_1f x (komi args)"
  have A: "startup x args pb pw =
          Inr \<lparr>b = board,
               player = black\<lparr>p := \<lparr>stdout = restb,
                 stdin = stdin (p black) @ [?bs @ [CHR 0x0A], ?km @ [CHR 0x0A]]\<rparr>\<rparr>,
               opponent = white\<lparr>p := \<lparr>stdout = restw,
                 stdin = stdin (p white) @ [?bs @ [CHR 0x0A], ?km @ [CHR 0x0A]]\<rparr>\<rparr>,
               ko_move = None, movenum = 0\<rparr>"
    if g: "GtpBot_init pb ''B'' = (None, black)" "GtpBot_init pw ''W'' = (None, white)"
      and out: "stdout (p black) = response_lines c1 t1 @ response_lines c3 t3 @ restb"
        "stdout (p white) = response_lines c2 t2 @ response_lines c4 t4 @ restw"
      and f: "framed c1 t1" "framed c2 t2" "framed c3 t3" "framed c4 t4"
      and bd: "Board x (boardsize args) = Inr board"
  proof -
    let ?black1 = "black\<lparr>p := \<lparr>stdout = response_lines c3 t3 @ restb,
        stdin = stdin (p black) @ [?bs @ [CHR 0x0A]]\<rparr>\<rparr>"
    let ?white1 = "white\<lparr>p := \<lparr>stdout = response_lines c4 t4 @ restw,
        stdin = stdin (p white) @ [?bs @ [CHR 0x0A]]\<rparr>\<rparr>"
    have i1: "interact ?bs black = (Inr (c1 = CHR ''='',
        strip (dropWhile is_digit (t1 @ [CHR 0x0A, CHR 0x0A]))), ?black1)"
      using f(1) out(1) by (rule interact_framed)
    have i2: "interact ?bs white = (Inr (c2 = CHR ''='',
        strip (dropWhile is_digit (t2 @ [CHR 0x0A, CHR 0x0A]))), ?white1)"
      using f(2) out(2) by (rule interact_framed)
    have i3: "interact ?km ?black1 = (Inr (c3 = CHR ''='',
        strip (dropWhile is_digit (t3 @ [CHR 0x0A, CHR 0x0A]))),
        ?black1\<lparr>p := \<lparr>stdout = restb, stdin = stdin (p ?black1) @ [?km @ [CHR 0x0A]]\<rparr>\<rparr>)"
      using f(3) by (rule interact_framed) simp
    have i4: "interact ?km ?white1 = (Inr (c4 = CHR ''='',
        strip (dropWhile is_digit (t4 @ [CHR 0x0A, CHR 0x0A]))),
        ?white1\<lparr>p := \<lparr>stdout = restw, stdin = stdin (p ?white1) @ [?km @ [CHR 0x0A]]\<rparr>\<rparr>)"
      using f(4) by (rule interact_framed) simp
    show ?thesis
      unfolding startup_def
      by (simp only: g bd i1 i2 i3 i4 prod.case sum.case option.case) simp
  qed
  have B: "turn x args s =
          (Inr (m, m = Pass \<and> has_passed (opponent s)),
           s1\<lparr>player := pl\<lparr>has_passed := (m = Pass),
                 p := \<lparr>stdout = rest1,
                   stdin = stdin (p pl) @
                     [(''frisbee-play '' @ color pl @ '' '' @ format_move x m) @ [CHR 0x0A]]\<rparr>\<rparr>,
              opponent := (opponent s)\<lparr>p := \<lparr>stdout = rest2,
                   stdin = stdin (p (opponent s)) @
                     [(''frisbee-play '' @ color pl @ '' '' @ format_move x m) @ [CHR 0x0A]]\<rparr>\<rparr>\<rparr>)"
    if rd: "read (bot_write (''frisbee-reg_genmove '' @ color (player s)) (player s))
          = (Inr (True, proposal), pl)"
      and rm: "response2move x args (b s) (ko_move s) (color pl) (random x (movenum s)) proposal
          = Inr (hw, m)"
      and ap: "apply_move x m (s\<lparr>player := pl\<lparr>has_passed := (m = Pass)\<rparr>\<rparr>) = Inr s1"
      and out: "stdout (p pl) = response_lines c5 t5 @ rest1"
        "stdout (p (opponent s)) = response_lines c6 t6 @ rest2"
      and f: "framed c5 t5" "framed c6 t6"
  proof -
    let ?cmd = "''frisbee-play '' @ color pl @ '' '' @ format_move x m"
    let ?pl1 = "pl\<lparr>has_passed := (m = Pass)\<rparr>"
    from apply_move_frame [OF ap]
    have s1: "player s1 = ?pl1" "opponent s1 = opponent s" by simp_all
    have i1: "interact ?cmd ?pl1 = (Inr (c5 = CHR ''='',
        strip (dropWhile is_digit (t5 @ [CHR 0x0A, CHR 0x0A]))),
        ?pl1\<lparr>p := \<lparr>stdout = rest1, stdin = stdin (p ?pl1) @ [?cmd @ [CHR 0x0A]]\<rparr>\<rparr>)"
      using f(1) by (rule interact_framed) (simp add: out)
    have i2: "interact ?cmd (opponent s) = (Inr (c6 = CHR ''='',
        strip (dropWhile is_digit (t6 @ [CHR 0x0A, CHR 0x0A]))),
        (opponent s)\<lparr>p := \<lparr>stdout = rest2,
           stdin = stdin (p (opponent s)) @ [?cmd @ [CHR 0x0A]]\<rparr>\<rparr>)"
      using f(2) out(2) by (rule interact_framed)
    have c: "color (player s1) = color pl" by (simp add: s1)
    from rd rm ap i1 i2 show ?thesis
      by (simp add: turn_def Let_def s1)
  qed
  from A B show ?thesis by simp
qed

theorem rejected_commands_not_fatal_witness:
  "framed (CHR ''?'') '' unknown command''
   \<and> Board (grid_ext (\<lambda>_. 0)) (boardsize args0) = Inr empty5
   \<and> startup (grid_ext (\<lambda>_. 0)) args0 rejecting_black rejecting_white = Inr reject_start
   \<and> fst (turn (grid_ext (\<lambda>_. 0)) args0 reject_start) = Inr (Pass, False)
   \<and> stdout (p (player (snd (turn (grid_ext (\<lambda>_. 0)) args0 reject_start))))
       = reply ''? unknown command''"
proof -
  let ?x = "grid_ext (\<lambda>_. 0)"
  let ?t = "'' unknown command''"
  let ?black = "channel ''B'' ''black'' False
      [''? unknown command'', ''? unknown command'', ''= pass'', ''? unknown command'',
       ''? unknown command''] [''list_commands'', ''name'']"
  let ?white = "channel ''W'' ''white'' False
      [''? unknown command'', ''? unknown command'', ''? unknown command'', ''= pass'',
       ''? unknown command''] [''list_commands'', ''name'']"
  let ?restb = "concat (map reply [''= pass'', ''? unknown command'', ''? unknown command''])"
  let ?restw = "concat (map reply [''? unknown command'', ''= pass'', ''? unknown command''])"
  let ?rest2 = "concat (map reply [''= pass'', ''? unknown command''])"
  let ?pl = "channel ''B'' ''black'' False [''? unknown command'', ''? unknown command'']
      [''list_commands'', ''name'', ''boardsize 5'', ''komi 7.5'', ''frisbee-reg_genmove B'']"
  let ?s1 = "reject_start\<lparr>player := ?pl\<lparr>has_passed := True\<rparr>\<rparr>"
  have f: "framed (CHR ''?'') ?t" by (simp add: framed_def ascii_def)
  have bd: "Board ?x (boardsize args0) = Inr empty5"
    by (simp add: grid_defs args0_def empty5_def)
  have gb: "GtpBot_init rejecting_black ''B'' = (None, ?black)"
    and gw: "GtpBot_init rejecting_white ''W'' = (None, ?white)"
    by (simp_all add: run_defs rejecting_black_def rejecting_white_def channel_def)
  have ob: "stdout (p ?black) = response_lines (CHR ''?'') ?t @ response_lines (CHR ''?'') ?t @ ?restb"
    and ow: "stdout (p ?white) = response_lines (CHR ''?'') ?t @ response_lines (CHR ''?'') ?t @ ?restw"
    by (simp_all add: channel_def reply_def response_lines_def)
  have rd: "read (bot_write (''frisbee-reg_genmove '' @ color (player reject_start))
      (player reject_start)) = (Inr (True, ''pass''), ?pl)"
    by (simp add: run_defs reject_start_def channel_def)
  have rm: "response2move ?x args0 (b reject_start) (ko_move reject_start) (color ?pl)
      (random ?x (movenum reject_start)) ''pass'' = Inr (True, Pass)"
    by (simp add: response2move_def lower_def lower_char_def)
  have ap: "apply_move ?x Pass (reject_start\<lparr>player := ?pl\<lparr>has_passed := (Pass = Pass)\<rparr>\<rparr>)
      = Inr ?s1"
    by (simp add: apply_move_def reject_start_def)
  have o5: "stdout (p ?pl) = response_lines (CHR ''?'') ?t @ response_lines (CHR ''?'') ?t"
    and o6: "stdout (p (opponent reject_start)) = response_lines (CHR ''?'') ?t @ ?rest2"
    by (simp_all add: channel_def reply_def response_lines_def reject_start_def)
  note A = rejected_commands_not_fatal [where x = ?x and args = args0
      and pb = rejecting_black and pw = rejecting_white and black = ?black and white = ?white
      and ?c1.0 = "CHR ''?''" and ?t1.0 = ?t and ?c2.0 = "CHR ''?''" and ?t2.0 = ?t
      and ?c3.0 = "CHR ''?''" and ?t3.0 = ?t and ?c4.0 = "CHR ''?''" and ?t4.0 = ?t
      and restb = ?restb and restw = ?restw and board = empty5
      and s = reject_start and proposal = "''pass''" and pl = ?pl and hw = True and m = Pass
      and ?s1.0 = ?s1 and ?c5.0 = "CHR ''?''" and ?t5.0 = ?t
      and ?rest1.0 = "response_lines (CHR ''?'') ?t"
      and ?c6.0 = "CHR ''?''" and ?t6.0 = ?t and ?rest2.0 = ?rest2]
  from A f bd gb gw ob ow
  have st: "startup ?x args0 rejecting_black rejecting_white = Inr reject_start"
    by (simp add: reject_start_def channel_def args0_def grid_defs str_nat.simps)
  from A f rd rm ap o5 o6
  have tn: "fst (turn ?x args0 reject_start) = Inr (Pass, False)
      \<and> stdout (p (player (snd (turn ?x args0 reject_start)))) = reply ''? unknown command''"
    by (simp add: reject_start_def channel_def reply_def response_lines_def)
  from f bd st tn show ?thesis by simp
qed

section \<open>The start of the game and its end\<close>

lemma GtpBot_init_sent:
  assumes "GtpBot_init q c = (r, self)"
    and "P (''list_commands'' @ [CHR 0x0A])" and "P (''name'' @ [CHR 0x0A])"
    and "list_all P (stdin q)"
  shows "all_sent P self"
  using assms
  by (auto simp: GtpBot_init_def Let_def all_sent_def split: prod.splits sum.splits if_splits
      dest!: interact_sent)

lemma GtpBot_init_ok:
  assumes "GtpBot_init q c = (None, self)"
  shows "stdin (p self) = stdin q @ [''list_commands'' @ [CHR 0x0A], ''name'' @ [CHR 0x0A]]"
  using assms
  by (auto simp: GtpBot_init_def Let_def split: prod.splits sum.splits if_splits
      dest!: interact_sent)

text \<open>
  The start of \<^verbatim>\<open>main\<close> step by step: whatever the six exchanges return, the result
  of \<open>startup\<close> is decided by the first of them that failed.
\<close>

lemma startup_steps:
  obtains r1 black r2 white r3 black1 r4 white1 r5 black2 r6 white2 where
    "GtpBot_init pb ''B'' = (r1, black)" "GtpBot_init pw ''W'' = (r2, white)"
    "interact (''boardsize '' @ str_int (boardsize args)) black = (r3, black1)"
    "interact (''boardsize '' @ str_int (boardsize args)) white = (r4, white1)"
    "interact (''komi '' @ format_1f x (komi args)) black1 = (r5, black2)"
    "interact (''komi '' @ format_1f x (komi args)) white1 = (r6, white2)"
    "startup x args pb pw =
      (case r1 of Some e \<Rightarrow> Inl (e, [black]) | None \<Rightarrow>
       case r2 of Some e \<Rightarrow> Inl (e, [black, white]) | None \<Rightarrow>
       case r3 of Inl e \<Rightarrow> Inl (e, [black1, white]) | Inr _ \<Rightarrow>
       case r4 of Inl e \<Rightarrow> Inl (e, [black1, white1]) | Inr _ \<Rightarrow>
       case r5 of Inl e \<Rightarrow> Inl (e, [black2, white1]) | Inr _ \<Rightarrow>
       case r6 of Inl e \<Rightarrow> Inl (e, [black2, white2]) | Inr _ \<Rightarrow>
       case Board x (boardsize args) of
         Inl e \<Rightarrow> Inl (Raised e, [black2, white2])
       | Inr board \<Rightarrow> Inr \<lparr>b = board, player = black2, opponent = white2, ko_move = None,
           movenum = 0\<rparr>)"
proof -
  obtain r1 black where g1: "GtpBot_init pb ''B'' = (r1, black)"
    by (cases "GtpBot_init pb ''B''")
  obtain r2 white where g2: "GtpBot_init pw ''W'' = (r2, white)"
    by (cases "GtpBot_init pw ''W''")
  obtain r3 black1 where g3:
    "interact (''boardsize '' @ str_int (boardsize args)) black = (r3, black1)"
    by (cases "interact (''boardsize '' @ str_int (boardsize args)) black")
  obtain r4 white1 where g4:
    "interact (''boardsize '' @ str_int (boardsize args)) white = (r4, white1)"
    by (cases "interact (''boardsize '' @ str_int (boardsize args)) white")
  obtain r5 black2 where g5:
    "interact (''komi '' @ format_1f x (komi args)) black1 = (r5, black2)"
    by (cases "interact (''komi '' @ format_1f x (komi args)) black1")
  obtain r6 white2 where g6:
    "interact (''komi '' @ format_1f x (komi args)) white1 = (r6, white2)"
    by (cases "interact (''komi '' @ format_1f x (komi args)) white1")
  have "startup x args pb pw =
      (case r1 of Some e \<Rightarrow> Inl (e, [black]) | None \<Rightarrow>
       case r2 of Some e \<Rightarrow> Inl (e, [black, white]) | None \<Rightarrow>
       case r3 of Inl e \<Rightarrow> Inl (e, [black1, white]) | Inr _ \<Rightarrow>
       case r4 of Inl e \<Rightarrow> Inl (e, [black1, white1]) | Inr _ \<Rightarrow>
       case r5 of Inl e \<Rightarrow> Inl (e, [black2, white1]) | Inr _ \<Rightarrow>
       case r6 of Inl e \<Rightarrow> Inl (e, [black2, white2]) | Inr _ \<Rightarrow>
       case Board x (boardsize args) of
         Inl e \<Rightarrow> Inl (Raised e, [black2, white2])
       | Inr board \<Rightarrow> Inr \<lparr>b = board, player = black2, opponent = white2, ko_move = None,
           movenum = 0\<rparr>)"
    unfolding startup_def
    by (simp only: g1 g2 g3 g4 g5 g6 prod.case split: option.split sum.split)
  with g1 g2 g3 g4 g5 g6 show ?thesis by (rule that)
qed

lemma startup_sent:
  assumes "P (''list_commands'' @ [CHR 0x0A])" and "P (''name'' @ [CHR 0x0A])"
    and "\<And>t. P (''boardsize '' @ t)" and "\<And>t. P (''komi '' @ t)"
    and "list_all P (stdin pb)" and "list_all P (stdin pw)"
  shows "case startup x args pb pw of
           Inl (e, bots) \<Rightarrow> list_all (all_sent P) bots
         | Inr s \<Rightarrow> all_sent P (player s) \<and> all_sent P (opponent s)"
proof -
  have more: "all_sent P self'"
    if "interact cmd self = (r, self')" and "all_sent P self" and "P (cmd @ [CHR 0x0A])"
    for cmd self r self'
    using that interact_sent [of cmd self r self'] by (simp add: all_sent_def)
  obtain r1 black r2 white r3 black1 r4 white1 r5 black2 r6 white2 where
    g: "GtpBot_init pb ''B'' = (r1, black)" "GtpBot_init pw ''W'' = (r2, white)"
    "interact (''boardsize '' @ str_int (boardsize args)) black = (r3, black1)"
    "interact (''boardsize '' @ str_int (boardsize args)) white = (r4, white1)"
    "interact (''komi '' @ format_1f x (komi args)) black1 = (r5, black2)"
    "interact (''komi '' @ format_1f x (komi args)) white1 = (r6, white2)"
    and st: "startup x args pb pw =
      (case r1 of Some e \<Rightarrow> Inl (e, [black]) | None \<Rightarrow>
       case r2 of Some e \<Rightarrow> Inl (e, [black, white]) | None \<Rightarrow>
       case r3 of Inl e \<Rightarrow> Inl (e, [black1, white]) | Inr _ \<Rightarrow>
       case r4 of Inl e \<Rightarrow> Inl (e, [black1, white1]) | Inr _ \<Rightarrow>
       case r5 of Inl e \<Rightarrow> Inl (e, [black2, white1]) | Inr _ \<Rightarrow>
       case r6 of Inl e \<Rightarrow> Inl (e, [black2, white2]) | Inr _ \<Rightarrow>
       case Board x (boardsize args) of
         Inl e \<Rightarrow> Inl (Raised e, [black2, white2])
       | Inr board \<Rightarrow> Inr \<lparr>b = board, player = black2, opponent = white2, ko_move = None,
           movenum = 0\<rparr>)"
    by (rule startup_steps)
  from g(1) assms(1,2,5) have b0: "all_sent P black" by (rule GtpBot_init_sent)
  from g(2) assms(1,2,6) have w0: "all_sent P white" by (rule GtpBot_init_sent)
  have bs: "P ((''boardsize '' @ str_int (boardsize args)) @ [CHR 0x0A])"
    using assms(3) [of "str_int (boardsize args) @ [CHR 0x0A]"] by simp
  have km: "P ((''komi '' @ format_1f x (komi args)) @ [CHR 0x0A])"
    using assms(4) [of "format_1f x (komi args) @ [CHR 0x0A]"] by simp
  from g(3) b0 bs have b1: "all_sent P black1" by (rule more)
  from g(4) w0 bs have w1: "all_sent P white1" by (rule more)
  from g(5) b1 km have b2: "all_sent P black2" by (rule more)
  from g(6) w1 km have w2: "all_sent P white2" by (rule more)
  from b0 w0 b1 w1 b2 w2 show ?thesis
    unfolding st by (simp split: option.split sum.split)
qed

lemma startup_commands:
  assumes "startup x args pb pw = Inr s0" and "stdin pb = []" and "stdin pw = []"
  shows "stdin (p (player s0)) =
      [''list_commands'' @ [CHR 0x0A], ''name'' @ [CHR 0x0A],
       ''boardsize '' @ str_int (boardsize args) @ [CHR 0x0A],
       ''komi '' @ format_1f x (komi args) @ [CHR 0x0A]]
    \<and> stdin (p (opponent s0)) =
      [''list_commands'' @ [CHR 0x0A], ''name'' @ [CHR 0x0A],
       ''boardsize '' @ str_int (boardsize args) @ [CHR 0x0A],
       ''komi '' @ format_1f x (komi args) @ [CHR 0x0A]]"
proof -
  obtain r1 black r2 white r3 black1 r4 white1 r5 black2 r6 white2 where
    g: "GtpBot_init pb ''B'' = (r1, black)" "GtpBot_init pw ''W'' = (r2, white)"
    "interact (''boardsize '' @ str_int (boardsize args)) black = (r3, black1)"
    "interact (''boardsize '' @ str_int (boardsize args)) white = (r4, white1)"
    "interact (''komi '' @ format_1f x (komi args)) black1 = (r5, black2)"
    "interact (''komi '' @ format_1f x (komi args)) white1 = (r6, white2)"
    and st: "startup x args pb pw =
      (case r1 of Some e \<Rightarrow> Inl (e, [black]) | None \<Rightarrow>
       case r2 of Some e \<Rightarrow> Inl (e, [black, white]) | None \<Rightarrow>
       case r3 of Inl e \<Rightarrow> Inl (e, [black1, white]) | Inr _ \<Rightarrow>
       case r4 of Inl e \<Rightarrow> Inl (e, [black1, white1]) | Inr _ \<Rightarrow>
       case r5 of Inl e \<Rightarrow> Inl (e, [black2, white1]) | Inr _ \<Rightarrow>
       case r6 of Inl e \<Rightarrow> Inl (e, [black2, white2]) | Inr _ \<Rightarrow>
       case Board x (boardsize args) of
         Inl e \<Rightarrow> Inl (Raised e, [black2, white2])
       | Inr board \<Rightarrow> Inr \<lparr>b = board, player = black2, opponent = white2, ko_move = None,
           movenum = 0\<rparr>)"
    by (rule startup_steps)
  from assms(1) have ok: "r1 = None" "r2 = None" and s0: "player s0 = black2" "opponent s0 = white2"
    unfolding st by (auto split: option.splits sum.splits)
  from g(1) ok(1) assms(2)
  have b0: "stdin (p black) = [''list_commands'' @ [CHR 0x0A], ''name'' @ [CHR 0x0A]]"
    by (simp add: GtpBot_init_ok)
  from g(2) ok(2) assms(3)
  have w0: "stdin (p white) = [''list_commands'' @ [CHR 0x0A], ''name'' @ [CHR 0x0A]]"
    by (simp add: GtpBot_init_ok)
  from interact_sent [OF g(3)] interact_sent [OF g(5)] b0
  have "stdin (p black2) =
      [''list_commands'' @ [CHR 0x0A], ''name'' @ [CHR 0x0A],
       ''boardsize '' @ str_int (boardsize args) @ [CHR 0x0A],
       ''komi '' @ format_1f x (komi args) @ [CHR 0x0A]]"
    by simp
  moreover from interact_sent [OF g(4)] interact_sent [OF g(6)] w0
  have "stdin (p white2) =
      [''list_commands'' @ [CHR 0x0A], ''name'' @ [CHR 0x0A],
       ''boardsize '' @ str_int (boardsize args) @ [CHR 0x0A],
       ''komi '' @ format_1f x (komi args) @ [CHR 0x0A]]"
    by simp
  ultimately show ?thesis by (simp add: s0)
qed

lemma game_loop_sent:
  assumes "game_loop x args s = (r, s')"
    and "\<And>t. P (''frisbee-reg_genmove '' @ t)" and "\<And>t. P (''frisbee-play '' @ t)"
    and "all_sent P (player s) \<and> all_sent P (opponent s)"
  shows "all_sent P (player s') \<and> all_sent P (opponent s')"
proof (rule game_loop_invariant [where I = "\<lambda>s. all_sent P (player s) \<and> all_sent P (opponent s)",
      OF _ _ assms(4) assms(1)])
  fix s r s'
  assume "all_sent P (player s) \<and> all_sent P (opponent s)" and "turn x args s = (r, s')"
  then show "all_sent P (player s') \<and> all_sent P (opponent s')"
    using assms(2,3) turn_sent [of x args s r s' P] by blast
next
  fix s :: "'a state"
  assume "all_sent P (player s) \<and> all_sent P (opponent s)"
  then show "all_sent P (player (next_turn s)) \<and> all_sent P (opponent (next_turn s))"
    by (simp add: next_turn_def)
qed

lemma game_loop_roles:
  assumes "game_loop x args s = (r, s')" and "roles_kept s"
  shows "roles_kept s'"
proof (rule game_loop_invariant [where I = roles_kept, OF _ _ assms(2) assms(1)])
  fix s r s'
  assume "roles_kept s" and "turn x args s = (r, s')"
  then show "roles_kept s'"
    using turn_colors [of x args s r s'] by (simp add: roles_kept_def)
next
  fix s :: "'a state"
  assume "roles_kept s"
  then show "roles_kept (next_turn s)"
    by (auto simp: roles_kept_def next_turn_def)
qed

lemma main_sent:
  assumes "P (''list_commands'' @ [CHR 0x0A])" and "P (''name'' @ [CHR 0x0A])"
    and "\<And>t. P (''boardsize '' @ t)" and "\<And>t. P (''komi '' @ t)"
    and "\<And>t. P (''frisbee-reg_genmove '' @ t)" and "\<And>t. P (''frisbee-play '' @ t)"
    and "P (''quit'' @ [CHR 0x0A])"
    and "list_all P (stdin pb)" and "list_all P (stdin pw)"
  shows "list_all P (transcript (main x args pb pw))"
proof (cases "startup x args pb pw")
  case (Inl failure)
  obtain e bots where "failure = (e, bots)" by (cases failure)
  with Inl startup_sent [of P pb pw x args, OF assms(1-4) assms(8,9)]
  show ?thesis
    by (simp add: main_def transcript_def all_sent_def list_all_iff)
next
  case (Inr s0)
  obtain r s where g: "game_loop x args s0 = (r, s)" by (cases "game_loop x args s0")
  from Inr startup_sent [of P pb pw x args, OF assms(1-4) assms(8,9)]
  have "all_sent P (player s0) \<and> all_sent P (opponent s0)" by simp
  with g assms(5,6) have "all_sent P (player s) \<and> all_sent P (opponent s)"
    by (rule game_loop_sent)
  with Inr g assms(7) show ?thesis
    by (simp add: main_def transcript_def all_sent_def Let_def)
qed

text \<open>
  Claim C1, as the code has it. No run of \<^verbatim>\<open>main\<close> sends \<^verbatim>\<open>frisbee-epsilon\<close>:
  with nothing written to the engines beforehand, the commands each engine has received
  when the loop is entered are \<^verbatim>\<open>list_commands\<close>, \<^verbatim>\<open>name\<close>, \<^verbatim>\<open>boardsize\<close> and
  \<^verbatim>\<open>komi\<close>, in this order, and no line written to either engine up to the exit of
  \<^verbatim>\<open>main\<close>, on any path, starts with \<^verbatim>\<open>frisbee-epsilon\<close>. The docstring of
  \<^verbatim>\<open>main\<close> says of this command that it ``will be called once at the start of the
  game'' and shows it in its sample dialogue.
\<close>

theorem frisbee_epsilon_never_sent:
  assumes "stdin pb = []" and "stdin pw = []"
  shows "(startup x args pb pw = Inr s0 \<longrightarrow>
            stdin (p (player s0)) =
              [''list_commands'' @ [CHR 0x0A], ''name'' @ [CHR 0x0A],
               ''boardsize '' @ str_int (boardsize args) @ [CHR 0x0A],
               ''komi '' @ format_1f x (komi args) @ [CHR 0x0A]]
            \<and> stdin (p (opponent s0)) =
              [''list_commands'' @ [CHR 0x0A], ''name'' @ [CHR 0x0A],
               ''boardsize '' @ str_int (boardsize args) @ [CHR 0x0A],
               ''komi '' @ format_1f x (komi args) @ [CHR 0x0A]])
    \<and> list_all (\<lambda>line. take 15 line \<noteq> ''frisbee-epsilon'') (transcript (main x args pb pw))"
proof -
  have "list_all (\<lambda>line. take 15 line \<noteq> ''frisbee-epsilon'') (transcript (main x args pb pw))"
    by (rule main_sent) (simp_all add: assms)
  with startup_commands [of x args pb pw s0] assms show ?thesis by blast
qed

text \<open>The two passing engines on a board of side 5, with komi 7.5.\<close>

theorem frisbee_epsilon_never_sent_witness:
  "stdin passing_black = [] \<and> stdin passing_white = []
   \<and> startup (grid_ext (\<lambda>_. 0)) args0 passing_black passing_white = Inr pass_start
   \<and> stdin (p (player pass_start)) = map (\<lambda>c. c @ [CHR 0x0A])
        [''list_commands'', ''name'', ''boardsize 5'', ''komi 7.5'']
   \<and> stdin (p (opponent pass_start)) = map (\<lambda>c. c @ [CHR 0x0A])
        [''list_commands'', ''name'', ''boardsize 5'', ''komi 7.5'']
   \<and> list_all (\<lambda>line. take 15 line \<noteq> ''frisbee-epsilon'')
        (transcript (main (grid_ext (\<lambda>_. 0)) args0 passing_black passing_white))"
proof -
  have h1: "stdin passing_black = []" and h2: "stdin passing_white = []"
    by (simp_all add: passing_black_def passing_white_def script_def)
  have st: "startup (grid_ext (\<lambda>_. 0)) args0 passing_black passing_white = Inr pass_start"
    by (simp add: run_defs passing_black_def passing_white_def pass_start_def)
  from frisbee_epsilon_never_sent [OF h1 h2, of "grid_ext (\<lambda>_. 0)" args0 pass_start] st h1 h2
  show ?thesis by (simp add: args0_def grid_defs str_nat.simps)
qed

text \<open>The whole dialogue of that game: the white channel first, then the black one.\<close>

theorem frisbee_epsilon_missing_from_a_game:
  "transcript (main (grid_ext (\<lambda>_. 0)) args0 passing_black passing_white) =
     map (\<lambda>c. c @ [CHR 0x0A])
       [''list_commands'', ''name'', ''boardsize 5'', ''komi 7.5'', ''frisbee-play B pass'',
        ''frisbee-reg_genmove W'', ''frisbee-play W pass'', ''quit'',
        ''list_commands'', ''name'', ''boardsize 5'', ''komi 7.5'', ''frisbee-reg_genmove B'',
        ''frisbee-play B pass'', ''frisbee-play W pass'', ''quit'']"
  by (simp add: run_defs transcript_def passing_black_def passing_white_def)

text \<open>
  Claim C9, amended. Once the loop has been entered, \<^verbatim>\<open>main\<close> is left through
  \<^verbatim>\<open>finally\<close>: whether the loop ended with the double pass or with an exception
  (\<open>fst (game_loop x args s0)\<close>), the last line written to each of the two channels is
  \<^verbatim>\<open>quit\<close>, and the two channels are the black and the white one. An exception before
  the loop, in a handshake, in \<^verbatim>\<open>boardsize\<close> or \<^verbatim>\<open>komi\<close> or in making the board,
  leaves \<^verbatim>\<open>main\<close> with no \<^verbatim>\<open>quit\<close> written to any engine. (\<^verbatim>\<open>close\<close>, which
  would end a process, is called on no path; a write is taken to succeed.)
\<close>

theorem quit_on_every_exit_of_the_loop:
  "(startup x args pb pw = Inr s0 \<longrightarrow>
      (\<exists>s. main x args pb pw = Finished (fst (game_loop x args s0)) s
        \<and> last (stdin (p (player s))) = ''quit'' @ [CHR 0x0A]
        \<and> last (stdin (p (opponent s))) = ''quit'' @ [CHR 0x0A]
        \<and> roles_kept s))
   \<and> (startup x args pb pw = Inl (e, bots) \<and> stdin pb = [] \<and> stdin pw = [] \<longrightarrow>
        main x args pb pw = Startup_failed e bots
        \<and> list_all (all_sent (\<lambda>line. line \<noteq> ''quit'' @ [CHR 0x0A])) bots)"
proof -
  have in_loop: "\<exists>s. main x args pb pw = Finished (fst (game_loop x args s0)) s
        \<and> last (stdin (p (player s))) = ''quit'' @ [CHR 0x0A]
        \<and> last (stdin (p (opponent s))) = ''quit'' @ [CHR 0x0A]
        \<and> roles_kept s"
    if st: "startup x args pb pw = Inr s0"
  proof -
    obtain r s where g: "game_loop x args s0 = (r, s)" by (cases "game_loop x args s0")
    from startup_flags [OF st] have "roles_kept s0" by (simp add: roles_kept_def)
    with g have "roles_kept s" by (rule game_loop_roles)
    with st g show ?thesis
      by (simp add: main_def Let_def roles_kept_def)
  qed
  have before: "main x args pb pw = Startup_failed e bots
        \<and> list_all (all_sent (\<lambda>line. line \<noteq> ''quit'' @ [CHR 0x0A])) bots"
    if h: "startup x args pb pw = Inl (e, bots)" "stdin pb = []" "stdin pw = []"
  proof -
    from h(1) have "main x args pb pw = Startup_failed e bots" by (simp add: main_def)
    moreover have "case startup x args pb pw of
        Inl (e, bots) \<Rightarrow> list_all (all_sent (\<lambda>line. line \<noteq> ''quit'' @ [CHR 0x0A])) bots
      | Inr s \<Rightarrow> all_sent (\<lambda>line. line \<noteq> ''quit'' @ [CHR 0x0A]) (player s)
          \<and> all_sent (\<lambda>line. line \<noteq> ''quit'' @ [CHR 0x0A]) (opponent s)"
      by (rule startup_sent) (simp_all add: h)
    ultimately show ?thesis using h(1) by simp
  qed
  from in_loop before show ?thesis by blast
qed

theorem quit_on_every_exit_of_the_loop_witness:
  "startup (grid_ext (\<lambda>_. 0)) args0 passing_black passing_white = Inr pass_start
   \<and> fst (game_loop (grid_ext (\<lambda>_. 0)) args0 pass_start) = None
   \<and> (\<exists>s. main (grid_ext (\<lambda>_. 0)) args0 passing_black passing_white = Finished None s
        \<and> last (stdin (p (player s))) = ''quit'' @ [CHR 0x0A]
        \<and> last (stdin (p (opponent s))) = ''quit'' @ [CHR 0x0A])
   \<and> startup (grid_ext (\<lambda>_. 0)) args0 passing_black closing_white = Inr close_start
   \<and> fst (game_loop (grid_ext (\<lambda>_. 0)) args0 close_start) = Some AssertionError
   \<and> (\<exists>s. main (grid_ext (\<lambda>_. 0)) args0 passing_black closing_white
          = Finished (Some AssertionError) s
        \<and> last (stdin (p (player s))) = ''quit'' @ [CHR 0x0A]
        \<and> last (stdin (p (opponent s))) = ''quit'' @ [CHR 0x0A])
   \<and> stdin refusing_black = [] \<and> stdin passing_white = []
   \<and> startup (grid_ext (\<lambda>_. 0)) args0 refusing_black passing_white
        = Inl (AssertionError, [engine []\<lparr>p := \<lparr>stdout = [],
            stdin = [''list_commands'' @ [CHR 0x0A]]\<rparr>\<rparr>])
   \<and> main (grid_ext (\<lambda>_. 0)) args0 refusing_black passing_white
        = Startup_failed AssertionError [engine []\<lparr>p := \<lparr>stdout = [],
            stdin = [''list_commands'' @ [CHR 0x0A]]\<rparr>\<rparr>]"
proof -
  let ?x = "grid_ext (\<lambda>_. 0)"
  let ?bot = "engine []\<lparr>p := \<lparr>stdout = [], stdin = [''list_commands'' @ [CHR 0x0A]]\<rparr>\<rparr>"
  have s1: "startup ?x args0 passing_black passing_white = Inr pass_start"
    by (simp add: run_defs passing_black_def passing_white_def pass_start_def)
  have g1: "fst (game_loop ?x args0 pass_start) = None"
    by (simp add: run_defs pass_start_def)
  have s2: "startup ?x args0 passing_black closing_white = Inr close_start"
    by (simp add: run_defs passing_black_def closing_white_def close_start_def channel_def
        empty5_def)
  have g2: "fst (game_loop ?x args0 close_start) = Some AssertionError"
    by (simp add: run_defs close_start_def channel_def empty5_def)
  have e3: "stdin refusing_black = []" "stdin passing_white = []"
    by (simp_all add: refusing_black_def passing_white_def script_def)
  have s3: "startup ?x args0 refusing_black passing_white = Inl (AssertionError, [?bot])"
    by (simp add: run_defs refusing_black_def passing_white_def engine_def)
  note a = quit_on_every_exit_of_the_loop [where x = ?x and args = args0
      and pb = passing_black and pw = passing_white and ?s0.0 = pass_start]
  note b = quit_on_every_exit_of_the_loop [where x = ?x and args = args0
      and pb = passing_black and pw = closing_white and ?s0.0 = close_start]
  note c = quit_on_every_exit_of_the_loop [where x = ?x and args = args0
      and pb = refusing_black and pw = passing_white and e = AssertionError and bots = "[?bot]"]
  from a s1 g1 have ra: "\<exists>s. main ?x args0 passing_black passing_white = Finished None s
        \<and> last (stdin (p (player s))) = ''quit'' @ [CHR 0x0A]
        \<and> last (stdin (p (opponent s))) = ''quit'' @ [CHR 0x0A]"
    by auto
  from b s2 g2 have rb: "\<exists>s. main ?x args0 passing_black closing_white
          = Finished (Some AssertionError) s
        \<and> last (stdin (p (player s))) = ''quit'' @ [CHR 0x0A]
        \<and> last (stdin (p (opponent s))) = ''quit'' @ [CHR 0x0A]"
    by auto
  from c s3 e3 have rc: "main ?x args0 refusing_black passing_white
      = Startup_failed AssertionError [?bot]"
    by blast
  from s1 g1 ra s2 g2 rb e3 s3 rc show ?thesis by blast
qed

text \<open>
  Claim C9 as stated fails: when black rejects \<^verbatim>\<open>list_commands\<close>, the assertion in the
  constructor ends \<^verbatim>\<open>main\<close>; black has been sent that one command and no
  \<^verbatim>\<open>quit\<close>, and the white engine has not been started.
\<close>

theorem no_quit_after_failed_handshake:
  "main (grid_ext (\<lambda>_. 0)) args0 refusing_black passing_white =
     Startup_failed AssertionError
       [\<lparr>color = ''B'', has_passed = False,
         p = \<lparr>stdout = [], stdin = [''list_commands'' @ [CHR 0x0A]]\<rparr>,
         commands = [], name = []\<rparr>]"
  by (simp add: run_defs refusing_black_def passing_white_def)

end
